theory Spec2Isabelle
  imports Complex_Main
begin

section \<open>Collection resolution of ansible-rulebook (\<open>ansible_rulebook/collection.py\<close>)\<close>

text \<open>
  The module resolves resources inside installed collections. Everything it does beyond
  computing a value is made explicit here: exceptions are values of \<open>py_error\<close>, the
  memoisation of \<open>find_collection\<close>, the subprocess spawns and the log records are fields
  of a \<open>world\<close> that every operation takes and returns, and the collaborators the module
  only calls (settings, the package lister, the filesystem, the YAML decoder, the vault
  detector) are the fields of an \<open>env\<close>.
\<close>

subsection \<open>Python strings and POSIX paths\<close>

text \<open>\<open>s.startswith(p)\<close> and \<open>s.endswith(p)\<close>.\<close>

definition startswith :: "string \<Rightarrow> string \<Rightarrow> bool" where
  "startswith s p = (take (length p) s = p)"

definition endswith :: "string \<Rightarrow> string \<Rightarrow> bool" where
  "endswith s p = (length p \<le> length s \<and> drop (length s - length p) s = p)"

text \<open>\<open>p in s\<close> for two strings: \<open>p\<close> occurs in \<open>s\<close> as a contiguous run.\<close>

fun str_contains :: "string \<Rightarrow> string \<Rightarrow> bool" where
  "str_contains [] p = (p = [])"
| "str_contains (c # cs) p = (startswith (c # cs) p \<or> str_contains cs p)"

text \<open>\<open>s.split(sep)\<close> for a one-character separator: never empty, \<open>''''\<close> gives \<open>['''']\<close>.\<close>

fun py_split :: "char \<Rightarrow> string \<Rightarrow> string list" where
  "py_split sep [] = [[]]"
| "py_split sep (c # cs) =
     (if c = sep then [] # py_split sep cs
      else (case py_split sep cs of
              [] \<Rightarrow> [[c]]
            | w # ws \<Rightarrow> (c # w) # ws))"

text \<open>\<open>sep.join(xs)\<close>.\<close>

fun py_join :: "string \<Rightarrow> string list \<Rightarrow> string" where
  "py_join sep [] = []"
| "py_join sep [x] = x"
| "py_join sep (x # y # ys) = x @ sep @ py_join sep (y # ys)"

text \<open>
  \<open>s.splitlines()\<close>: the line boundaries are LF, CR, CR LF, VT, FF, FS, GS, RS and NEL
  (the boundaries U+2028 and U+2029 are not characters of \<open>char\<close>); the boundaries are
  dropped and there is no empty last line.
\<close>

definition is_linebreak :: "char \<Rightarrow> bool" where
  "is_linebreak c = (c \<in> set [CHR 0x0A, CHR 0x0B, CHR 0x0C, CHR 0x1C, CHR 0x1D, CHR 0x1E, CHR 0x85])"

fun lines_from :: "string \<Rightarrow> string \<Rightarrow> string list" where
  "lines_from cur [] = (if cur = [] then [] else [rev cur])"
| "lines_from cur (c # cs) =
     (if c = CHR 0x0D then
        (case cs of
           [] \<Rightarrow> [rev cur]
         | d # ds \<Rightarrow> if d = CHR 0x0A then rev cur # lines_from [] ds
                     else rev cur # lines_from [] (d # ds))
      else if is_linebreak c then rev cur # lines_from [] cs
      else lines_from (c # cur) cs)"

definition splitlines :: "string \<Rightarrow> string list" where
  "splitlines s = lines_from [] s"

text \<open>
  \<open>os.path.join(a, *p)\<close> of \<open>posixpath\<close>: a component that starts with \<open>/\<close> replaces what
  was joined so far; otherwise it is appended, after a \<open>/\<close> unless the path so far is
  empty or ends with one.
\<close>

definition join_step :: "string \<Rightarrow> string \<Rightarrow> string" where
  "join_step path b =
     (if startswith b ''/'' then b
      else if path = [] \<or> endswith path ''/'' then path @ b
      else path @ ''/'' @ b)"

definition os_path_join :: "string \<Rightarrow> string list \<Rightarrow> string" where
  "os_path_join a p = foldl join_step a p"

subsection \<open>Values, errors and the world\<close>

text \<open>
  What \<open>yaml.safe_load\<close> returns: a mapping is an association list read with \<open>map_of\<close>.
  Timestamps, binary scalars and the non-finite floats are not represented.
\<close>

datatype yaml =
    YNull
  | YBool bool
  | YInt int
  | YFloat rat
  | YStr string
  | YList "yaml list"
  | YMap "(yaml \<times> yaml) list"

text \<open>The exceptions that leave the module.\<close>

datatype py_error =
    PyException string
  | PermissionError string
  | UnicodeDecodeError
  | TypeError
  | AttributeError
  | KeyError string
  | YAMLError
  | UnboundLocalError string
  | FileNotFoundError string
  | RulebookNotFoundException string

text \<open>
  \<open>subprocess.check_output\<close> on the lister, followed by \<open>output.decode()\<close>: the decoded
  output of a run that exits with 0, \<open>CalledProcessError\<close> carrying the output of a run
  that does not, or the exception of any other failure, which the module does not catch:
  \<open>FileNotFoundError\<close> or \<open>PermissionError\<close> when the executable cannot be spawned,
  \<open>UnicodeDecodeError\<close> when the output does not decode.
\<close>

datatype lister_outcome =
    Output string
  | CalledProcessError string
  | Uncaught py_error

datatype log_record =
    LogError string
  | LogWarning yaml
  | Banner string string

record env =
  ansible_galaxy_path :: "string option"
  galaxy_list :: "string \<Rightarrow> string \<Rightarrow> lister_outcome"
  path_exists :: "string \<Rightarrow> bool"
  open_file :: "string \<Rightarrow> py_error + string"
  safe_load :: "string \<Rightarrow> py_error + yaml"
  has_vaulted_str :: "string \<Rightarrow> bool"
  format_value :: "yaml \<Rightarrow> string"

text \<open>
  The state the module changes. \<open>cache\<close> is the store of \<open>functools.lru_cache\<close> around
  \<open>find_collection\<close>, most recently used entry first; \<open>lookups\<close> records the argument of
  every call of \<open>find_collection\<close>, \<open>spawned\<close> the executable and name of every run of the
  lister, \<open>logged\<close> the records given to the logger and the display, all newest first.
\<close>

record world =
  cache :: "(string \<times> string option) list"
  lookups :: "string list"
  spawned :: "(string \<times> string) list"
  logged :: "log_record list"

definition initial_world :: world where
  "initial_world = \<lparr>cache = [], lookups = [], spawned = [], logged = []\<rparr>"

subsection \<open>The module's constants\<close>

definition EDA_PATH_PREFIX :: string where
  "EDA_PATH_PREFIX = ''extensions/eda''"

definition EDA_EXTENSIONS :: string where
  "EDA_EXTENSIONS = ''extensions.eda''"

definition EDA_FILTER_PATHS :: "string list" where
  "EDA_FILTER_PATHS =
     [EDA_PATH_PREFIX @ ''/plugins/event_filter'',
      EDA_PATH_PREFIX @ ''/plugins/event_filters'',
      ''plugins/event_filter'']"

definition EDA_SOURCE_PATHS :: "string list" where
  "EDA_SOURCE_PATHS =
     [EDA_PATH_PREFIX @ ''/plugins/event_source'',
      EDA_PATH_PREFIX @ ''/plugins/event_sources'',
      ''plugins/event_source'']"

definition EDA_PLAYBOOKS_PATHS :: "string list" where
  "EDA_PLAYBOOKS_PATHS = [''.'', ''playbooks'']"

definition EDA_YAML_EXTENSIONS :: "string list" where
  "EDA_YAML_EXTENSIONS = [''.yml'', ''.yaml'']"

subsection \<open>The Locator: \<open>find_collection\<close>\<close>

text \<open>
  The loop over the lines of the lister's output: a line that starts with \<open># \<close> names a
  base directory, the segments of the name are joined to it, and the first joined path
  that exists is returned.
\<close>

fun scan_lines :: "env \<Rightarrow> string list \<Rightarrow> string list \<Rightarrow> string option" where
  "scan_lines e parts [] = None"
| "scan_lines e parts (line # rest) =
     (if startswith line ''# '' then
        (let location = os_path_join (drop 2 line) parts
         in if path_exists e location then Some location
            else scan_lines e parts rest)
      else scan_lines e parts rest)"

text \<open>The body of \<open>find_collection\<close>, which runs on a cache miss.\<close>

definition find_collection_body ::
  "env \<Rightarrow> string \<Rightarrow> world \<Rightarrow> (py_error + string option) \<times> world" where
  "find_collection_body e name w =
     (case ansible_galaxy_path e of
        None \<Rightarrow> (Inl (PyException ''ansible-galaxy is not installed''), w)
      | Some galaxy \<Rightarrow>
          (let w1 = w\<lparr>spawned := (galaxy, name) # spawned w\<rparr>
           in case galaxy_list e galaxy name of
                Uncaught err \<Rightarrow> (Inl err, w1)
              | CalledProcessError out \<Rightarrow>
                  (Inr None, w1\<lparr>logged := LogError out # logged w1\<rparr>)
              | Output out \<Rightarrow>
                  (Inr (scan_lines e (py_split CHR ''.'' name) (splitlines out)), w1)))"

text \<open>
  \<open>@lru_cache\<close> without arguments is \<open>lru_cache(maxsize=128)\<close>: a hit moves the entry
  to the most recently used end and returns it; a miss runs the body, stores a returned
  value (an exception is not stored) and, when the store is full, drops the least
  recently used entry.
\<close>

definition maxsize :: nat where
  "maxsize = 128"

definition find_collection ::
  "env \<Rightarrow> string \<Rightarrow> world \<Rightarrow> (py_error + string option) \<times> world" where
  "find_collection e name w =
     (let w0 = w\<lparr>lookups := name # lookups w\<rparr>
      in case map_of (cache w0) name of
           Some r \<Rightarrow>
             (Inr r, w0\<lparr>cache := (name, r) # filter (\<lambda>kv. fst kv \<noteq> name) (cache w0)\<rparr>)
         | None \<Rightarrow>
             (case find_collection_body e name w0 of
                (Inl err, w1) \<Rightarrow> (Inl err, w1)
              | (Inr r, w1) \<Rightarrow>
                  (Inr r, w1\<lparr>cache := take maxsize ((name, r) # cache w1)\<rparr>)))"

text \<open>A caller that locates one name after the other, each in its own environment.\<close>

fun locate_all :: "(env \<times> string) list \<Rightarrow> world \<Rightarrow> world" where
  "locate_all [] w = w"
| "locate_all ((e, name) # rest) w = locate_all rest (snd (find_collection e name w))"

subsection \<open>The Resource Resolver: \<open>has_object\<close> and \<open>find_object\<close>\<close>

text \<open>
  The two candidate parameters are a string or a list of strings. \<open>extensions\<close> goes
  through \<open>if not isinstance(extensions, list): extensions = [extensions]\<close>;
  \<open>object_types\<close> is iterated as it is, and iterating a string yields its characters.
\<close>

datatype str_or_list = Str string | StrList "string list"

definition as_list :: "str_or_list \<Rightarrow> string list" where
  "as_list x = (case x of Str s \<Rightarrow> [s] | StrList xs \<Rightarrow> xs)"

definition iterate :: "str_or_list \<Rightarrow> string list" where
  "iterate x = (case x of Str s \<Rightarrow> map (\<lambda>c. [c]) s | StrList xs \<Rightarrow> xs)"

text \<open>
  \<open>os.path.join(find_collection(collection), object_type, name) + extension\<close>, where the
  first argument is the location the Locator returned; joining \<open>None\<close> is a \<open>TypeError\<close>.
\<close>

definition candidate :: "string \<Rightarrow> string \<Rightarrow> string \<Rightarrow> string \<Rightarrow> string" where
  "candidate loc object_type name extension = os_path_join loc [object_type, name] @ extension"

fun has_inner ::
  "env \<Rightarrow> string \<Rightarrow> string \<Rightarrow> string \<Rightarrow> string list \<Rightarrow> world \<Rightarrow> (py_error + bool) \<times> world" where
  "has_inner e collection name object_type [] w = (Inr False, w)"
| "has_inner e collection name object_type (extension # rest) w =
     (case find_collection e collection w of
        (Inl err, w1) \<Rightarrow> (Inl err, w1)
      | (Inr None, w1) \<Rightarrow> (Inl TypeError, w1)
      | (Inr (Some loc), w1) \<Rightarrow>
          if path_exists e (candidate loc object_type name extension) then (Inr True, w1)
          else has_inner e collection name object_type rest w1)"

fun has_outer ::
  "env \<Rightarrow> string \<Rightarrow> string \<Rightarrow> string list \<Rightarrow> string list \<Rightarrow> world \<Rightarrow> (py_error + bool) \<times> world" where
  "has_outer e collection name [] extensions w = (Inr False, w)"
| "has_outer e collection name (object_type # rest) extensions w =
     (case has_inner e collection name object_type extensions w of
        (Inl err, w1) \<Rightarrow> (Inl err, w1)
      | (Inr True, w1) \<Rightarrow> (Inr True, w1)
      | (Inr False, w1) \<Rightarrow> has_outer e collection name rest extensions w1)"

definition has_object ::
  "env \<Rightarrow> string \<Rightarrow> string \<Rightarrow> str_or_list \<Rightarrow> str_or_list \<Rightarrow> world \<Rightarrow> (py_error + bool) \<times> world" where
  "has_object e collection name object_types extensions w =
     (case find_collection e collection w of
        (Inl err, w1) \<Rightarrow> (Inl err, w1)
      | (Inr None, w1) \<Rightarrow> (Inr False, w1)
      | (Inr (Some loc), w1) \<Rightarrow>
          has_outer e collection name (iterate object_types) (as_list extensions) w1)"

text \<open>
  The loops of \<open>find_object\<close> either return a location or run to their end; the
  \<open>raise\<close> after them reads the loop variables \<open>object_type\<close> and \<open>location\<close>, so the
  loops carry them: \<open>None\<close> is a variable that was never bound.
\<close>

datatype 'a loop_exit = Returned string | Finished 'a

fun find_inner ::
  "env \<Rightarrow> string \<Rightarrow> string \<Rightarrow> string \<Rightarrow> string list \<Rightarrow> string option \<Rightarrow> world
   \<Rightarrow> (py_error + string option loop_exit) \<times> world" where
  "find_inner e collection name object_type [] location w = (Inr (Finished location), w)"
| "find_inner e collection name object_type (extension # rest) location w =
     (case find_collection e collection w of
        (Inl err, w1) \<Rightarrow> (Inl err, w1)
      | (Inr None, w1) \<Rightarrow> (Inl TypeError, w1)
      | (Inr (Some loc), w1) \<Rightarrow>
          (let location' = candidate loc object_type name extension
           in if path_exists e location' then (Inr (Returned location'), w1)
              else find_inner e collection name object_type rest (Some location') w1))"

fun find_outer ::
  "env \<Rightarrow> string \<Rightarrow> string \<Rightarrow> string list \<Rightarrow> string list \<Rightarrow> string option \<times> string option
   \<Rightarrow> world \<Rightarrow> (py_error + (string option \<times> string option) loop_exit) \<times> world" where
  "find_outer e collection name [] extensions vars w = (Inr (Finished vars), w)"
| "find_outer e collection name (object_type # rest) extensions vars w =
     (case find_inner e collection name object_type extensions (snd vars) w of
        (Inl err, w1) \<Rightarrow> (Inl err, w1)
      | (Inr (Returned p), w1) \<Rightarrow> (Inr (Returned p), w1)
      | (Inr (Finished location), w1) \<Rightarrow>
          find_outer e collection name rest extensions (Some object_type, location) w1)"

text \<open>What \<open>find_object\<close> returns: \<open>False\<close> or a location.\<close>

datatype found = PyFalse | Path string

definition not_found_message :: "string \<Rightarrow> string \<Rightarrow> string \<Rightarrow> string \<Rightarrow> string" where
  "not_found_message object_type name collection location =
     ''Cannot find '' @ object_type @ '' '' @ name @ '' in '' @ collection @ '' at '' @ location"

definition raise_not_found ::
  "string \<Rightarrow> string \<Rightarrow> string option \<times> string option \<Rightarrow> py_error" where
  "raise_not_found collection name vars =
     (case fst vars of
        None \<Rightarrow> UnboundLocalError ''object_type''
      | Some object_type \<Rightarrow>
          (case snd vars of
             None \<Rightarrow> UnboundLocalError ''location''
           | Some location \<Rightarrow>
               FileNotFoundError (not_found_message object_type name collection location)))"

definition find_object ::
  "env \<Rightarrow> string \<Rightarrow> string \<Rightarrow> str_or_list \<Rightarrow> str_or_list \<Rightarrow> world \<Rightarrow> (py_error + found) \<times> world" where
  "find_object e collection name object_types extensions w =
     (case find_collection e collection w of
        (Inl err, w1) \<Rightarrow> (Inl err, w1)
      | (Inr None, w1) \<Rightarrow> (Inr PyFalse, w1)
      | (Inr (Some loc), w1) \<Rightarrow>
          (case find_outer e collection name (iterate object_types) (as_list extensions)
                  (None, None) w1 of
             (Inl err, w2) \<Rightarrow> (Inl err, w2)
           | (Inr (Returned p), w2) \<Rightarrow> (Inr (Path p), w2)
           | (Inr (Finished vars), w2) \<Rightarrow> (Inl (raise_not_found collection name vars), w2)))"

text \<open>The locations the two loops probe, in the order in which they probe them.\<close>

definition candidates :: "string \<Rightarrow> string \<Rightarrow> string list \<Rightarrow> string list \<Rightarrow> string list" where
  "candidates loc name object_types extensions =
     concat (map (\<lambda>object_type. map (candidate loc object_type name) extensions) object_types)"

subsection \<open>The four resource kinds\<close>

definition has_rulebook :: "env \<Rightarrow> string \<Rightarrow> string \<Rightarrow> world \<Rightarrow> (py_error + bool) \<times> world" where
  "has_rulebook e collection rulebook w =
     has_object e collection rulebook
       (StrList [EDA_PATH_PREFIX @ ''/rulebooks'', ''rulebooks'']) (Str ''.yml'') w"

text \<open>\<open>not location\<close>: \<open>False\<close> and the empty string are falsy.\<close>

definition falsy :: "found \<Rightarrow> bool" where
  "falsy location = (case location of PyFalse \<Rightarrow> True | Path p \<Rightarrow> p = [])"

definition load_rulebook ::
  "env \<Rightarrow> string \<Rightarrow> string \<Rightarrow> world \<Rightarrow> (py_error + bool \<times> yaml) \<times> world" where
  "load_rulebook e collection rulebook w =
     (case find_object e collection rulebook
             (StrList [EDA_PATH_PREFIX @ ''/rulebooks'', ''rulebooks'']) (Str ''.yml'') w of
        (Inl err, w1) \<Rightarrow> (Inl err, w1)
      | (Inr location, w1) \<Rightarrow>
          if falsy location then
            (Inl (RulebookNotFoundException (''Cannot find collection '' @ collection)), w1)
          else
            (case location of
               PyFalse \<Rightarrow> (Inl TypeError, w1)
             | Path p \<Rightarrow>
                 (case open_file e p of
                    Inl err \<Rightarrow> (Inl err, w1)
                  | Inr raw_data \<Rightarrow>
                      (let w2 = w1\<lparr>logged :=
                                  Banner ''collection'' (''Loading rulebook from '' @ p) # logged w1\<rparr>
                       in case safe_load e raw_data of
                            Inl err \<Rightarrow> (Inl err, w2)
                          | Inr rules \<Rightarrow> (Inr (has_vaulted_str e raw_data, rules), w2)))))"

definition has_source :: "env \<Rightarrow> string \<Rightarrow> string \<Rightarrow> world \<Rightarrow> (py_error + bool) \<times> world" where
  "has_source e collection source w =
     has_object e collection source (StrList EDA_SOURCE_PATHS) (Str ''.py'') w"

definition find_source :: "env \<Rightarrow> string \<Rightarrow> string \<Rightarrow> world \<Rightarrow> (py_error + found) \<times> world" where
  "find_source e collection source w =
     find_object e collection source (StrList EDA_SOURCE_PATHS) (Str ''.py'') w"

definition has_source_filter :: "env \<Rightarrow> string \<Rightarrow> string \<Rightarrow> world \<Rightarrow> (py_error + bool) \<times> world" where
  "has_source_filter e collection source_filter w =
     has_object e collection source_filter (StrList EDA_FILTER_PATHS) (Str ''.py'') w"

definition find_source_filter :: "env \<Rightarrow> string \<Rightarrow> string \<Rightarrow> world \<Rightarrow> (py_error + found) \<times> world" where
  "find_source_filter e collection source_filter w =
     find_object e collection source_filter (StrList EDA_FILTER_PATHS) (Str ''.py'') w"

definition has_playbook :: "env \<Rightarrow> string \<Rightarrow> string \<Rightarrow> world \<Rightarrow> (py_error + bool) \<times> world" where
  "has_playbook e collection playbook w =
     has_object e collection playbook (StrList EDA_PLAYBOOKS_PATHS) (StrList EDA_YAML_EXTENSIONS) w"

definition find_playbook :: "env \<Rightarrow> string \<Rightarrow> string \<Rightarrow> world \<Rightarrow> (py_error + found) \<times> world" where
  "find_playbook e collection playbook w =
     find_object e collection playbook (StrList EDA_PLAYBOOKS_PATHS) (StrList EDA_YAML_EXTENSIONS) w"

subsection \<open>The Deprecation Resolver: \<open>is_deprecated\<close>\<close>

text \<open>
  The operations of Python that \<open>is_deprecated\<close> applies to the decoded metadata, with
  the exception each raises on a value of the wrong type: \<open>key in v\<close>, \<open>v[key]\<close>,
  \<open>v.get(key, default)\<close>, the truth value of \<open>v\<close>, and \<open>v += text\<close>.
\<close>

definition py_in :: "string \<Rightarrow> yaml \<Rightarrow> py_error + bool" where
  "py_in k v =
     (case v of
        YMap m \<Rightarrow> Inr (map_of m (YStr k) \<noteq> None)
      | YStr s \<Rightarrow> Inr (str_contains s k)
      | YList xs \<Rightarrow> Inr (YStr k \<in> set xs)
      | _ \<Rightarrow> Inl TypeError)"

definition py_getitem :: "yaml \<Rightarrow> string \<Rightarrow> py_error + yaml" where
  "py_getitem v k =
     (case v of
        YMap m \<Rightarrow> (case map_of m (YStr k) of None \<Rightarrow> Inl (KeyError k) | Some x \<Rightarrow> Inr x)
      | _ \<Rightarrow> Inl TypeError)"

definition py_get :: "yaml \<Rightarrow> string \<Rightarrow> yaml \<Rightarrow> py_error + yaml" where
  "py_get v k dflt =
     (case v of
        YMap m \<Rightarrow> Inr (case map_of m (YStr k) of None \<Rightarrow> dflt | Some x \<Rightarrow> x)
      | _ \<Rightarrow> Inl AttributeError)"

definition truthy :: "yaml \<Rightarrow> bool" where
  "truthy v =
     (case v of
        YNull \<Rightarrow> False
      | YBool b \<Rightarrow> b
      | YInt i \<Rightarrow> i \<noteq> 0
      | YFloat r \<Rightarrow> r \<noteq> 0
      | YStr s \<Rightarrow> s \<noteq> []
      | YList xs \<Rightarrow> xs \<noteq> []
      | YMap m \<Rightarrow> m \<noteq> [])"

definition py_iadd :: "yaml \<Rightarrow> string \<Rightarrow> py_error + yaml" where
  "py_iadd v text =
     (case v of
        YStr s \<Rightarrow> Inr (YStr (s @ text))
      | YList xs \<Rightarrow> Inr (YList (xs @ map (\<lambda>c. YStr [c]) text))
      | _ \<Rightarrow> Inl TypeError)"

definition and_then :: "'e + 'a \<Rightarrow> ('a \<Rightarrow> 'e + 'b) \<Rightarrow> 'e + 'b" where
  "and_then m f = (case m of Inl err \<Rightarrow> Inl err | Inr x \<Rightarrow> f x)"

text \<open>
  The lookups in the decoded \<open>meta/runtime.yml\<close>, up to the message of the warning:
  \<open>None\<close> when there is no redirect, otherwise the message and the routing entry.
\<close>

definition check_routing :: "env \<Rightarrow> string \<Rightarrow> string \<Rightarrow> yaml \<Rightarrow> py_error + (yaml \<times> yaml) option" where
  "check_routing e name obj_type data =
     and_then (py_in ''plugin_routing'' data) (\<lambda>has_routing.
       if \<not> has_routing then Inr None
       else
     and_then (py_getitem data ''plugin_routing'') (\<lambda>plugin_routing.
     and_then (py_get plugin_routing (EDA_EXTENSIONS @ ''.plugins.'' @ obj_type) (YMap []))
       (\<lambda>deprecated_objs.
     and_then (py_get deprecated_objs name (YMap [])) (\<lambda>deprecated_item.
     and_then (py_in ''redirect'' deprecated_item) (\<lambda>has_redirect.
       if \<not> has_redirect then Inr None
       else
     and_then (py_get deprecated_item ''deprecation'' (YMap [])) (\<lambda>deprecation_details.
     and_then (py_get deprecation_details ''warning_text'' (YStr [])) (\<lambda>warning_text.
     and_then (py_get deprecation_details ''removal_version'' YNull) (\<lambda>removal_version.
     and_then
       (if truthy removal_version then
          py_iadd warning_text
            ('' It will be removed in version '' @ format_value e removal_version @ ''.'')
        else Inr warning_text) (\<lambda>msg.
     Inr (Some (msg, deprecated_item)))))))))))"

definition is_deprecated ::
  "env \<Rightarrow> string \<Rightarrow> string \<Rightarrow> world \<Rightarrow> (py_error + bool \<times> yaml option) \<times> world" where
  "is_deprecated e name obj_type w =
     (let parts = py_split CHR ''.'' name
      in if length parts < 2 then (Inr (False, None), w)
         else
           (let collection_name = py_join ''.'' (butlast parts)
            in case find_collection e collection_name w of
                 (Inl err, w1) \<Rightarrow> (Inl err, w1)
               | (Inr None, w1) \<Rightarrow> (Inr (False, None), w1)
               | (Inr (Some path), w1) \<Rightarrow>
                   (let runtime_yml = os_path_join path [''meta'', ''runtime.yml'']
                    in if path_exists e runtime_yml then
                         (case open_file e runtime_yml of
                            Inl err \<Rightarrow> (Inl err, w1)
                          | Inr file \<Rightarrow>
                              (case safe_load e file of
                                 Inl err \<Rightarrow> (Inl err, w1)
                               | Inr data \<Rightarrow>
                                   (case check_routing e name obj_type data of
                                      Inl err \<Rightarrow> (Inl err, w1)
                                    | Inr None \<Rightarrow> (Inr (False, None), w1)
                                    | Inr (Some (msg, deprecated_item)) \<Rightarrow>
                                        (let w2 = w1\<lparr>logged := LogWarning msg # logged w1\<rparr>
                                         in case py_getitem deprecated_item ''redirect'' of
                                              Inl err \<Rightarrow> (Inl err, w2)
                                            | Inr redirect \<Rightarrow> (Inr (True, Some redirect), w2)))))
                       else (Inr (False, None), w1))))"

text \<open>
  The misses of the lookup in routing metadata that is a mapping, with a mapping at
  every level that is present: no \<open>plugin_routing\<close>, no entry for the object kind, no
  entry for the name, or an entry without \<open>redirect\<close>.
\<close>

definition routing_miss :: "(yaml \<times> yaml) list \<Rightarrow> string \<Rightarrow> string \<Rightarrow> bool" where
  "routing_miss m name obj_type =
     (case map_of m (YStr ''plugin_routing'') of
        None \<Rightarrow> True
      | Some (YMap routing) \<Rightarrow>
          (case map_of routing (YStr (EDA_EXTENSIONS @ ''.plugins.'' @ obj_type)) of
             None \<Rightarrow> True
           | Some (YMap objs) \<Rightarrow>
               (case map_of objs (YStr name) of
                  None \<Rightarrow> True
                | Some (YMap item) \<Rightarrow> map_of item (YStr ''redirect'') = None
                | Some _ \<Rightarrow> False)
           | Some _ \<Rightarrow> False)
      | Some _ \<Rightarrow> False)"

subsection \<open>An installation to run the operations on\<close>

text \<open>
  One collection, \<open>ansible.eda\<close>, installed under \<open>/c\<close>: a rulebook \<open>hello\<close> in both
  rulebook directories, a playbook \<open>hello\<close>, an event source \<open>range\<close>, an event filter
  \<open>json_filter\<close>, and routing metadata that redirects the event filter
  \<open>ansible.eda.json_filter\<close>.
\<close>

definition demo_files :: "string list" where
  "demo_files =
     [''/c/ansible/eda'',
      ''/c/ansible/eda/extensions/eda/rulebooks/hello.yml'',
      ''/c/ansible/eda/rulebooks/hello.yml'',
      ''/c/ansible/eda/playbooks/hello.yml'',
      ''/c/ansible/eda/plugins/event_source/range.py'',
      ''/c/ansible/eda/extensions/eda/plugins/event_filters/json_filter.py'',
      ''/c/ansible/eda/meta/runtime.yml'',
      ''/c/ansible/eda/r/x.yml'']"

definition demo_metadata :: "(yaml \<times> yaml) list" where
  "demo_metadata =
     [(YStr ''plugin_routing'',
       YMap [(YStr ''extensions.eda.plugins.event_filter'',
         YMap [(YStr ''ansible.eda.json_filter'',
           YMap [(YStr ''redirect'', YStr ''eda.builtin.json_filter''),
                 (YStr ''deprecation'',
                   YMap [(YStr ''warning_text'', YStr ''moved.''),
                         (YStr ''removal_version'', YStr ''3.0.0'')])])])])]"

definition demo_env :: env where
  "demo_env =
     \<lparr>ansible_galaxy_path = Some ''/usr/bin/ansible-galaxy'',
      galaxy_list = (\<lambda>galaxy name.
        if name = ''ansible.eda''
        then Output ([CHR 0x0A] @ ''# /c'' @ [CHR 0x0A] @ ''Collection  Version'' @ [CHR 0x0A]
                     @ ''ansible.eda 2.1.0'' @ [CHR 0x0A])
        else CalledProcessError ''ERROR! unable to find the collection''),
      path_exists = (\<lambda>p. p \<in> set demo_files),
      open_file = (\<lambda>p. if p \<in> set demo_files then Inr ''plugin_routing: ...''
                        else Inl (FileNotFoundError p)),
      safe_load = (\<lambda>raw. Inr (YMap demo_metadata)),
      has_vaulted_str = (\<lambda>raw. False),
      format_value = (\<lambda>v. case v of YStr s \<Rightarrow> s | _ \<Rightarrow> [])\<rparr>"

text \<open>The same installation with the setting \<open>ansible_galaxy_path\<close> unset.\<close>

definition unconfigured_env :: env where
  "unconfigured_env = demo_env\<lparr>ansible_galaxy_path := None\<rparr>"

text \<open>The same installation with an empty \<open>meta/runtime.yml\<close>, which decodes to \<open>None\<close>.\<close>

definition empty_metadata_env :: env where
  "empty_metadata_env = demo_env\<lparr>safe_load := (\<lambda>raw. Inr YNull)\<rparr>"

text \<open>
  A lister that knows every name and a filesystem on which every path exists; the names
  \<open>x\<close>, \<open>xx\<close>, \<open>xxx\<close>, ... up to the given length are pairwise distinct.
\<close>

definition open_env :: env where
  "open_env =
     \<lparr>ansible_galaxy_path = Some ''g'',
      galaxy_list = (\<lambda>galaxy name. Output ''# /c''),
      path_exists = (\<lambda>p. True),
      open_file = (\<lambda>p. Inl (FileNotFoundError p)),
      safe_load = (\<lambda>raw. Inl YAMLError),
      has_vaulted_str = (\<lambda>raw. False),
      format_value = (\<lambda>v. [])\<rparr>"

definition distinct_names :: "nat \<Rightarrow> string list" where
  "distinct_names k = map (\<lambda>i. replicate i CHR ''x'') [1..<Suc k]"

text \<open>The world after locating \<open>a.b\<close> and then that many other names.\<close>

definition world_after :: "nat \<Rightarrow> world" where
  "world_after k =
     locate_all (map (Pair open_env) (distinct_names k))
       (snd (find_collection open_env ''a.b'' initial_world))"

subsection \<open>The invariant of the cache\<close>

text \<open>
  What keeps the entry of a name in the cache: the keys are distinct, the name has its
  entry, and the entries in front of it, which were used after it, have their keys in a
  given set of names.
\<close>

definition still_cached :: "string \<Rightarrow> string option \<Rightarrow> string set \<Rightarrow> world \<Rightarrow> bool" where
  "still_cached name r names w =
     (distinct (map fst (cache w))
      \<and> map_of (cache w) name = Some r
      \<and> fst ` set (takeWhile (\<lambda>kv. fst kv \<noteq> name) (cache w)) \<subseteq> names)"

section \<open>Properties\<close>

subsection \<open>The cache in front of the Locator\<close>

lemma find_collection_hit:
  assumes "map_of (cache w) c = Some r"
  shows "find_collection e c w =
           (Inr r, w\<lparr>lookups := c # lookups w,
                     cache := (c, r) # filter (\<lambda>kv. fst kv \<noteq> c) (cache w)\<rparr>)"
  using assms by (simp add: find_collection_def)

lemma find_collection_body_cache:
  "find_collection_body e c w = (res, w') \<Longrightarrow> cache w' = cache w \<and> lookups w' = lookups w"
  by (auto simp: find_collection_body_def Let_def split: option.splits lister_outcome.splits)

lemma find_collection_cached:
  assumes "fst (find_collection e c w) = Inr r"
  shows "map_of (cache (snd (find_collection e c w))) c = Some r"
  using assms
  by (auto simp: find_collection_def Let_def maxsize_def split: option.splits prod.splits sum.splits)

subsection \<open>The two loops of \<open>find_object\<close>\<close>

lemma find_append_case:
  "List.find P (xs @ ys) = (case List.find P xs of None \<Rightarrow> List.find P ys | Some x \<Rightarrow> Some x)"
  by (induction xs) auto

lemma find_inner_cached:
  assumes "map_of (cache w) c = Some (Some loc)"
  shows "\<exists>w'. find_inner e c n ot exts location w =
           (Inr (case List.find (path_exists e) (map (candidate loc ot n) exts) of
                   Some p \<Rightarrow> Returned p
                 | None \<Rightarrow> Finished (if exts = [] then location
                                      else Some (candidate loc ot n (last exts)))), w')
         \<and> map_of (cache w') c = Some (Some loc)"
  using assms
proof (induction exts arbitrary: location w)
  case Nil
  then show ?case by simp
next
  case (Cons x exts)
  let ?w1 = "w\<lparr>lookups := c # lookups w,
               cache := (c, Some loc) # filter (\<lambda>kv. fst kv \<noteq> c) (cache w)\<rparr>"
  have hit: "find_collection e c w = (Inr (Some loc), ?w1)"
    using Cons.prems by (rule find_collection_hit)
  have cached: "map_of (cache ?w1) c = Some (Some loc)"
    by simp
  show ?case
  proof (cases "path_exists e (candidate loc ot n x)")
    case True
    with hit cached show ?thesis by simp
  next
    case False
    from Cons.IH [OF cached, of "Some (candidate loc ot n x)"]
    obtain w' where
      "find_inner e c n ot exts (Some (candidate loc ot n x)) ?w1 =
         (Inr (case List.find (path_exists e) (map (candidate loc ot n) exts) of
                 Some p \<Rightarrow> Returned p
               | None \<Rightarrow> Finished (if exts = [] then Some (candidate loc ot n x)
                                    else Some (candidate loc ot n (last exts)))), w')"
      and "map_of (cache w') c = Some (Some loc)"
      by blast
    with hit False show ?thesis
      by (auto split: option.splits)
  qed
qed

text \<open>The loop variables after both loops have run to their end.\<close>

lemma find_outer_cached:
  assumes "map_of (cache w) c = Some (Some loc)"
  shows "\<exists>w'. find_outer e c n ots exts vars w =
           (Inr (case List.find (path_exists e) (candidates loc n ots exts) of
                   Some p \<Rightarrow> Returned p
                 | None \<Rightarrow> Finished
                     (if ots = [] then vars
                      else (Some (last ots),
                            if exts = [] then snd vars
                            else Some (candidate loc (last ots) n (last exts))))), w')
         \<and> map_of (cache w') c = Some (Some loc)"
  using assms
proof (induction ots arbitrary: vars w)
  case Nil
  then show ?case by (simp add: candidates_def)
next
  case (Cons ot ots)
  from find_inner_cached [OF Cons.prems, of e n ot exts "snd vars"]
  obtain w1 where
    inner: "find_inner e c n ot exts (snd vars) w =
       (Inr (case List.find (path_exists e) (map (candidate loc ot n) exts) of
               Some p \<Rightarrow> Returned p
             | None \<Rightarrow> Finished (if exts = [] then snd vars
                                  else Some (candidate loc ot n (last exts)))), w1)"
    and cached: "map_of (cache w1) c = Some (Some loc)"
    by blast
  have split: "candidates loc n (ot # ots) exts =
                 map (candidate loc ot n) exts @ candidates loc n ots exts"
    by (simp add: candidates_def)
  show ?case
  proof (cases "List.find (path_exists e) (map (candidate loc ot n) exts)")
    case (Some p)
    with inner cached show ?thesis
      by (simp add: split find_append_case)
  next
    case None
    let ?vars = "(Some ot, if exts = [] then snd vars else Some (candidate loc ot n (last exts)))"
    from Cons.IH [OF cached, of ?vars]
    obtain w' where
      "find_outer e c n ots exts ?vars w1 =
         (Inr (case List.find (path_exists e) (candidates loc n ots exts) of
                 Some p \<Rightarrow> Returned p
               | None \<Rightarrow> Finished
                   (if ots = [] then ?vars
                    else (Some (last ots),
                          if exts = [] then snd ?vars
                          else Some (candidate loc (last ots) n (last exts))))), w')"
      and "map_of (cache w') c = Some (Some loc)"
      by blast
    with inner None show ?thesis
      by (auto simp: split find_append_case split: option.splits)
  qed
qed

text \<open>What \<open>find_object\<close> does in an installed collection.\<close>

lemma find_object_installed:
  assumes "fst (find_collection e c w) = Inr (Some loc)"
  shows "fst (find_object e c n ots exts w) =
           (case List.find (path_exists e) (candidates loc n (iterate ots) (as_list exts)) of
              Some p \<Rightarrow> Inr (Path p)
            | None \<Rightarrow> Inl (raise_not_found c n
                (if iterate ots = [] then (None, None)
                 else (Some (last (iterate ots)),
                       if as_list exts = [] then None
                       else Some (candidate loc (last (iterate ots)) n (last (as_list exts)))))))"
proof -
  obtain w1 where fc: "find_collection e c w = (Inr (Some loc), w1)"
    using assms by (cases "find_collection e c w") auto
  have "map_of (cache w1) c = Some (Some loc)"
    using find_collection_cached [OF assms] fc by simp
  from find_outer_cached [OF this, of e n "iterate ots" "as_list exts" "(None, None)"]
  obtain w2 where
    "find_outer e c n (iterate ots) (as_list exts) (None, None) w1 =
       (Inr (case List.find (path_exists e) (candidates loc n (iterate ots) (as_list exts)) of
               Some p \<Rightarrow> Returned p
             | None \<Rightarrow> Finished
                 (if iterate ots = [] then (None, None)
                  else (Some (last (iterate ots)),
                        if as_list exts = [] then snd (None :: string option, None :: string option)
                        else Some (candidate loc (last (iterate ots)) n (last (as_list exts)))))), w2)"
    by blast
  with fc show ?thesis
    by (auto simp: find_object_def split: option.splits)
qed

lemma find_object_absent:
  assumes "fst (find_collection e c w) = Inr None"
  shows "fst (find_object e c n ots exts w) = Inr PyFalse"
  using assms by (auto simp: find_object_def split: prod.splits sum.splits option.splits)

lemma find_object_path_installed:
  assumes "fst (find_object e c n ots exts w) = Inr (Path p)"
  shows "\<exists>loc. fst (find_collection e c w) = Inr (Some loc)"
  using assms by (auto simp: find_object_def split: prod.splits sum.splits option.splits)

lemma find_concat_first:
  assumes "i < length xss" and "\<exists>x\<in>set (xss ! i). P x"
  shows "\<exists>k\<le>i. \<exists>p\<in>set (xss ! k). List.find P (concat xss) = Some p"
  using assms
proof (induction xss arbitrary: i)
  case Nil
  then show ?case by simp
next
  case (Cons b rest)
  show ?case
  proof (cases "List.find P b")
    case (Some p)
    then have "p \<in> set b" by (auto simp: find_Some_iff)
    with Some show ?thesis
      by (auto simp: find_append_case intro!: exI [of _ 0])
  next
    case None
    then have nob: "\<forall>x\<in>set b. \<not> P x" by (simp add: find_None_iff)
    with Cons.prems obtain j where i: "i = Suc j" by (cases i) auto
    with Cons.prems have "j < length rest" "\<exists>x\<in>set (rest ! j). P x" by auto
    from Cons.IH [OF this] obtain k p where
      "k \<le> j" "p \<in> set (rest ! k)" "List.find P (concat rest) = Some p" by blast
    with None i show ?thesis
      by (auto simp: find_append_case intro!: exI [of _ "Suc k"])
  qed
qed

lemma load_rulebook_propagates:
  assumes "fst (find_object e c rb (StrList [EDA_PATH_PREFIX @ ''/rulebooks'', ''rulebooks''])
                  (Str ''.yml'') w) = Inl err"
  shows "fst (load_rulebook e c rb w) = Inl err"
  using assms by (auto simp: load_rulebook_def split: prod.splits sum.splits)

lemma load_rulebook_false:
  assumes "fst (find_object e c rb (StrList [EDA_PATH_PREFIX @ ''/rulebooks'', ''rulebooks''])
                  (Str ''.yml'') w) = Inr PyFalse"
  shows "fst (load_rulebook e c rb w) =
           Inl (RulebookNotFoundException (''Cannot find collection '' @ c))"
  using assms by (auto simp: load_rulebook_def falsy_def split: prod.splits sum.splits)

lemma scan_lines_find:
  "scan_lines e parts ls =
     List.find (path_exists e)
       (map (\<lambda>line. os_path_join (drop 2 line) parts)
            (filter (\<lambda>line. startswith line ''# '') ls))"
  by (induction ls) (simp_all add: Let_def)

subsection \<open>Rulebook loading and its two error kinds\<close>

text \<open>
  C1, as the code has it. In an installed collection in which neither
  \<open>extensions/eda/rulebooks/<rulebook>.yml\<close> nor \<open>rulebooks/<rulebook>.yml\<close> exists,
  \<open>load_rulebook\<close> fails with the \<open>FileNotFoundError\<close> that \<open>find_object\<close> raises, which
  names the last location probed; \<open>RulebookNotFoundException\<close> is what it raises when the
  Locator reports the collection absent.
\<close>

theorem load_rulebook_error_kinds:
  "(fst (find_collection e c w) = Inr None \<longrightarrow>
      fst (load_rulebook e c rb w) =
        Inl (RulebookNotFoundException (''Cannot find collection '' @ c)))
   \<and> (fst (find_collection e c w) = Inr (Some loc)
        \<and> \<not> path_exists e (candidate loc ''extensions/eda/rulebooks'' rb ''.yml'')
        \<and> \<not> path_exists e (candidate loc ''rulebooks'' rb ''.yml'') \<longrightarrow>
      fst (load_rulebook e c rb w) =
        Inl (FileNotFoundError
               (not_found_message ''rulebooks'' rb c (candidate loc ''rulebooks'' rb ''.yml''))))"
proof (intro conjI impI)
  assume "fst (find_collection e c w) = Inr None"
  then show "fst (load_rulebook e c rb w) =
               Inl (RulebookNotFoundException (''Cannot find collection '' @ c))"
    by (intro load_rulebook_false find_object_absent)
next
  assume a: "fst (find_collection e c w) = Inr (Some loc)
        \<and> \<not> path_exists e (candidate loc ''extensions/eda/rulebooks'' rb ''.yml'')
        \<and> \<not> path_exists e (candidate loc ''rulebooks'' rb ''.yml'')"
  then have "fst (find_object e c rb (StrList [EDA_PATH_PREFIX @ ''/rulebooks'', ''rulebooks''])
                    (Str ''.yml'') w) =
               Inl (FileNotFoundError
                 (not_found_message ''rulebooks'' rb c (candidate loc ''rulebooks'' rb ''.yml'')))"
    by (simp add: find_object_installed [of e c w loc] candidates_def iterate_def as_list_def
          EDA_PATH_PREFIX_def raise_not_found_def)
  then show "fst (load_rulebook e c rb w) =
        Inl (FileNotFoundError
               (not_found_message ''rulebooks'' rb c (candidate loc ''rulebooks'' rb ''.yml'')))"
    by (rule load_rulebook_propagates)
qed

theorem load_rulebook_error_kinds_witness:
  "fst (find_collection demo_env ''missing.eda'' initial_world) = Inr None
   \<and> fst (load_rulebook demo_env ''missing.eda'' ''hello_events'' initial_world) =
       Inl (RulebookNotFoundException ''Cannot find collection missing.eda'')
   \<and> fst (find_collection demo_env ''ansible.eda'' initial_world) = Inr (Some ''/c/ansible/eda'')
   \<and> \<not> path_exists demo_env (candidate ''/c/ansible/eda'' ''extensions/eda/rulebooks'' ''bye'' ''.yml'')
   \<and> \<not> path_exists demo_env (candidate ''/c/ansible/eda'' ''rulebooks'' ''bye'' ''.yml'')
   \<and> fst (load_rulebook demo_env ''ansible.eda'' ''bye'' initial_world) =
       Inl (FileNotFoundError
              ''Cannot find rulebooks bye in ansible.eda at /c/ansible/eda/rulebooks/bye.yml'')"
proof -
  have absent: "fst (find_collection demo_env ''missing.eda'' initial_world) = Inr None"
    by code_simp
  have installed:
    "fst (find_collection demo_env ''ansible.eda'' initial_world) = Inr (Some ''/c/ansible/eda'')"
    by code_simp
  have no1: "\<not> path_exists demo_env
                 (candidate ''/c/ansible/eda'' ''extensions/eda/rulebooks'' ''bye'' ''.yml'')"
    by code_simp
  have no2: "\<not> path_exists demo_env (candidate ''/c/ansible/eda'' ''rulebooks'' ''bye'' ''.yml'')"
    by code_simp
  have msg: "not_found_message ''rulebooks'' ''bye'' ''ansible.eda''
               (candidate ''/c/ansible/eda'' ''rulebooks'' ''bye'' ''.yml'') =
             ''Cannot find rulebooks bye in ansible.eda at /c/ansible/eda/rulebooks/bye.yml''"
    by code_simp
  show ?thesis
    using load_rulebook_error_kinds [of demo_env "''missing.eda''" initial_world "''hello_events''"]
      load_rulebook_error_kinds [of demo_env "''ansible.eda''" initial_world "''bye''"
        "''/c/ansible/eda''"]
      absent installed no1 no2 msg
    by simp
qed

text \<open>
  C1 as the specification states it fails: the collection is installed, no candidate
  rulebook file exists, and the error is the generic one.
\<close>

theorem load_rulebook_missing_file_counterexample:
  "fst (find_collection demo_env ''ansible.eda'' initial_world) = Inr (Some ''/c/ansible/eda'')
   \<and> \<not> path_exists demo_env ''/c/ansible/eda/extensions/eda/rulebooks/nope.yml''
   \<and> \<not> path_exists demo_env ''/c/ansible/eda/rulebooks/nope.yml''
   \<and> fst (load_rulebook demo_env ''ansible.eda'' ''nope'' initial_world) =
       Inl (FileNotFoundError
              ''Cannot find rulebooks nope in ansible.eda at /c/ansible/eda/rulebooks/nope.yml'')"
  by code_simp

subsection \<open>An absent collection\<close>

text \<open>
  C2, as the code has it. When the Locator reports the collection absent, \<open>find_object\<close>
  returns \<open>False\<close> and raises nothing, and so do \<open>find_playbook\<close>, \<open>find_source\<close> and
  \<open>find_source_filter\<close>.
\<close>

theorem find_object_absent_returns_false:
  assumes "fst (find_collection e c w) = Inr None"
  shows "fst (find_object e c n ots exts w) = Inr PyFalse
         \<and> fst (find_playbook e c n w) = Inr PyFalse
         \<and> fst (find_source e c n w) = Inr PyFalse
         \<and> fst (find_source_filter e c n w) = Inr PyFalse"
  using assms
  by (simp add: find_object_absent find_playbook_def find_source_def find_source_filter_def)

theorem find_object_absent_returns_false_witness:
  "fst (find_collection demo_env ''community.missing'' initial_world) = Inr None
   \<and> fst (find_object demo_env ''community.missing'' ''hello'' (StrList [''playbooks''])
            (StrList [''.yml'']) initial_world) = Inr PyFalse
   \<and> fst (find_playbook demo_env ''community.missing'' ''hello'' initial_world) = Inr PyFalse
   \<and> fst (find_source demo_env ''community.missing'' ''hello'' initial_world) = Inr PyFalse
   \<and> fst (find_source_filter demo_env ''community.missing'' ''hello'' initial_world) = Inr PyFalse"
proof -
  have absent: "fst (find_collection demo_env ''community.missing'' initial_world) = Inr None"
    by code_simp
  show ?thesis
    using find_object_absent_returns_false [OF absent] absent by simp
qed

text \<open>
  C2 as the specification states it fails: the collection is absent and \<open>find_source\<close>
  returns normally, with \<open>False\<close>.
\<close>

theorem find_source_absent_counterexample:
  "fst (find_collection demo_env ''missing.eda'' initial_world) = Inr None
   \<and> fst (find_source demo_env ''missing.eda'' ''range'' initial_world) = Inr PyFalse"
  by code_simp

subsection \<open>Scalar candidate parameters\<close>

text \<open>
  C5, as the code has it. Only the extension parameter is normalised: a single extension
  behaves as the list of that one extension, in \<open>has_object\<close> and in \<open>find_object\<close>. The
  sub-path parameter is iterated as it is, so a single string behaves as the list of its
  characters.
\<close>

theorem scalar_extension_normalized:
  "has_object e c n ots (Str x) w = has_object e c n ots (StrList [x]) w
   \<and> find_object e c n ots (Str x) w = find_object e c n ots (StrList [x]) w
   \<and> has_object e c n (Str s) exts w = has_object e c n (StrList (map (\<lambda>ch. [ch]) s)) exts w
   \<and> find_object e c n (Str s) exts w = find_object e c n (StrList (map (\<lambda>ch. [ch]) s)) exts w"
proof -
  have ext: "as_list (Str x) = as_list (StrList [x])"
    by (simp add: as_list_def)
  have sub: "iterate (Str s) = iterate (StrList (map (\<lambda>ch. [ch]) s))"
    by (simp add: iterate_def)
  show ?thesis
    unfolding has_object_def find_object_def ext sub by (intro conjI refl)
qed

text \<open>
  C5 as the specification states it fails for the sub-path parameter: the file
  \<open>rulebooks/hello.yml\<close> exists; the list of the one sub-path finds it, the same sub-path
  as a single string does not.
\<close>

theorem scalar_subpath_counterexample:
  "fst (has_object demo_env ''ansible.eda'' ''hello'' (StrList [''rulebooks'']) (Str ''.yml'')
          initial_world) = Inr True
   \<and> fst (has_object demo_env ''ansible.eda'' ''hello'' (Str ''rulebooks'') (Str ''.yml'')
            initial_world) = Inr False
   \<and> fst (find_object demo_env ''ansible.eda'' ''hello'' (StrList [''rulebooks'']) (Str ''.yml'')
            initial_world) = Inr (Path ''/c/ansible/eda/rulebooks/hello.yml'')
   \<and> fst (find_object demo_env ''ansible.eda'' ''hello'' (Str ''rulebooks'') (Str ''.yml'')
            initial_world) =
       Inl (FileNotFoundError ''Cannot find s hello in ansible.eda at /c/ansible/eda/s/hello.yml'')"
  by code_simp

subsection \<open>The search order\<close>

text \<open>
  C6. In an installed collection and for non-empty lists of sub-paths and extensions,
  \<open>find_object\<close> returns the first location that exists in the sequence that takes the
  sub-paths in the order given and, for each, the extensions in the order given (and
  raises \<open>FileNotFoundError\<close> for the last location when none exists). In particular,
  when a file exists under the sub-path at position \<open>i\<close>, the location returned is under a
  sub-path at a position not after \<open>i\<close>.
\<close>

theorem find_object_search_order:
  assumes "fst (find_collection e c w) = Inr (Some loc)"
    and "ots \<noteq> []" and "exts \<noteq> []"
  shows "fst (find_object e c n (StrList ots) (StrList exts) w) =
           (case List.find (path_exists e)
                   (concat (map (\<lambda>ot. map (\<lambda>x. os_path_join loc [ot, n] @ x) exts) ots)) of
              Some p \<Rightarrow> Inr (Path p)
            | None \<Rightarrow> Inl (FileNotFoundError
                (not_found_message (last ots) n c (os_path_join loc [last ots, n] @ last exts))))
         \<and> (\<forall>i<length ots.
              (\<exists>x\<in>set exts. path_exists e (os_path_join loc [ots ! i, n] @ x)) \<longrightarrow>
              (\<exists>k\<le>i. \<exists>x\<in>set exts.
                 fst (find_object e c n (StrList ots) (StrList exts) w) =
                   Inr (Path (os_path_join loc [ots ! k, n] @ x))))"
proof -
  have cands: "candidates loc n ots exts =
                 concat (map (\<lambda>ot. map (\<lambda>x. os_path_join loc [ot, n] @ x) exts) ots)"
    by (simp add: candidates_def candidate_def [abs_def])
  have res: "fst (find_object e c n (StrList ots) (StrList exts) w) =
           (case List.find (path_exists e) (candidates loc n ots exts) of
              Some p \<Rightarrow> Inr (Path p)
            | None \<Rightarrow> Inl (FileNotFoundError
                (not_found_message (last ots) n c (candidate loc (last ots) n (last exts)))))"
    using assms
    by (simp add: find_object_installed [of e c w loc] iterate_def as_list_def
          raise_not_found_def split: option.splits)
  have first: "\<exists>k\<le>i. \<exists>x\<in>set exts.
                 fst (find_object e c n (StrList ots) (StrList exts) w) =
                   Inr (Path (os_path_join loc [ots ! k, n] @ x))"
    if i: "i < length ots"
      and ex: "\<exists>x\<in>set exts. path_exists e (os_path_join loc [ots ! i, n] @ x)" for i
  proof -
    let ?xss = "map (\<lambda>ot. map (candidate loc ot n) exts) ots"
    have "i < length ?xss" using i by simp
    moreover have "\<exists>p\<in>set (?xss ! i). path_exists e p"
      using i ex by (auto simp: candidate_def)
    ultimately obtain k p where k: "k \<le> i" and p: "p \<in> set (?xss ! k)"
      and f: "List.find (path_exists e) (concat ?xss) = Some p"
      using find_concat_first [of i ?xss "path_exists e"] by blast
    from k i p obtain x where "x \<in> set exts" "p = os_path_join loc [ots ! k, n] @ x"
      by (auto simp: candidate_def)
    moreover have "fst (find_object e c n (StrList ots) (StrList exts) w) = Inr (Path p)"
      using res f by (simp add: candidates_def)
    ultimately show ?thesis using k by blast
  qed
  have "candidate loc (last ots) n (last exts) = os_path_join loc [last ots, n] @ last exts"
    by (simp add: candidate_def)
  with res first show ?thesis
    by (simp add: cands split: option.splits)
qed

theorem find_object_search_order_witness:
  "fst (find_collection demo_env ''ansible.eda'' initial_world) = Inr (Some ''/c/ansible/eda'')
   \<and> [''extensions/eda/rulebooks'', ''rulebooks''] \<noteq> [] \<and> [''.yml'', ''.yaml''] \<noteq> []
   \<and> path_exists demo_env ''/c/ansible/eda/extensions/eda/rulebooks/hello.yml''
   \<and> path_exists demo_env ''/c/ansible/eda/rulebooks/hello.yml''
   \<and> fst (find_object demo_env ''ansible.eda'' ''hello''
            (StrList [''extensions/eda/rulebooks'', ''rulebooks''])
            (StrList [''.yml'', ''.yaml'']) initial_world) =
       Inr (Path ''/c/ansible/eda/extensions/eda/rulebooks/hello.yml'')"
proof -
  have installed:
    "fst (find_collection demo_env ''ansible.eda'' initial_world) = Inr (Some ''/c/ansible/eda'')"
    by code_simp
  have ne1: "[''extensions/eda/rulebooks'', ''rulebooks''] \<noteq> []" by simp
  have ne2: "[''.yml'', ''.yaml''] \<noteq> []" by simp
  have files: "path_exists demo_env ''/c/ansible/eda/extensions/eda/rulebooks/hello.yml''
               \<and> path_exists demo_env ''/c/ansible/eda/rulebooks/hello.yml''"
    by code_simp
  have first:
    "(case List.find (path_exists demo_env)
            (concat (map (\<lambda>ot. map (\<lambda>x. os_path_join ''/c/ansible/eda'' [ot, ''hello''] @ x)
                                  [''.yml'', ''.yaml''])
                         [''extensions/eda/rulebooks'', ''rulebooks''])) of
        Some p \<Rightarrow> Inr (Path p)
      | None \<Rightarrow> Inl (FileNotFoundError
          (not_found_message (last [''extensions/eda/rulebooks'', ''rulebooks'']) ''hello''
             ''ansible.eda''
             (os_path_join ''/c/ansible/eda''
                [last [''extensions/eda/rulebooks'', ''rulebooks''], ''hello'']
              @ last [''.yml'', ''.yaml''])))) =
     Inr (Path ''/c/ansible/eda/extensions/eda/rulebooks/hello.yml'')"
    by code_simp
  show ?thesis
    using find_object_search_order [OF installed ne1 ne2, of "''hello''"] installed files first
    by simp
qed

subsection \<open>Parsing the lister's output\<close>

text \<open>
  C7. On a cache miss with the lister configured and exiting with 0, \<open>find_collection\<close>
  takes the lines of the output that start with \<open># \<close>, in the order of the output, drops
  the two marker characters, joins the segments of the name between the dots to each
  base directory, and returns the first joined path that exists, or \<open>None\<close> when none
  exists.
\<close>

theorem find_collection_parses_output:
  assumes "ansible_galaxy_path e = Some galaxy"
    and "galaxy_list e galaxy name = Output out"
    and "map_of (cache w) name = None"
  shows "fst (find_collection e name w) =
           Inr (List.find (path_exists e)
                  (map (\<lambda>line. os_path_join (drop 2 line) (py_split CHR ''.'' name))
                       (filter (\<lambda>line. startswith line ''# '') (splitlines out))))
         \<and> (fst (find_collection e name w) = Inr None \<longleftrightarrow>
              (\<forall>line\<in>set (splitlines out). startswith line ''# '' \<longrightarrow>
                 \<not> path_exists e (os_path_join (drop 2 line) (py_split CHR ''.'' name))))"
proof -
  have res: "fst (find_collection e name w) =
           Inr (List.find (path_exists e)
                  (map (\<lambda>line. os_path_join (drop 2 line) (py_split CHR ''.'' name))
                       (filter (\<lambda>line. startswith line ''# '') (splitlines out))))"
    using assms
    by (simp add: find_collection_def find_collection_body_def Let_def scan_lines_find)
  show ?thesis
    unfolding res by (auto simp: find_None_iff)
qed

theorem find_collection_parses_output_witness:
  "ansible_galaxy_path demo_env = Some ''/usr/bin/ansible-galaxy''
   \<and> galaxy_list demo_env ''/usr/bin/ansible-galaxy'' ''ansible.eda'' =
       Output ([CHR 0x0A] @ ''# /c'' @ [CHR 0x0A] @ ''Collection  Version'' @ [CHR 0x0A]
               @ ''ansible.eda 2.1.0'' @ [CHR 0x0A])
   \<and> map_of (cache initial_world) ''ansible.eda'' = None
   \<and> fst (find_collection demo_env ''ansible.eda'' initial_world) = Inr (Some ''/c/ansible/eda'')"
proof -
  have conf: "ansible_galaxy_path demo_env = Some ''/usr/bin/ansible-galaxy''"
    by code_simp
  have out: "galaxy_list demo_env ''/usr/bin/ansible-galaxy'' ''ansible.eda'' =
       Output ([CHR 0x0A] @ ''# /c'' @ [CHR 0x0A] @ ''Collection  Version'' @ [CHR 0x0A]
               @ ''ansible.eda 2.1.0'' @ [CHR 0x0A])"
    by code_simp
  have miss: "map_of (cache initial_world) ''ansible.eda'' = None"
    by code_simp
  have first:
    "List.find (path_exists demo_env)
       (map (\<lambda>line. os_path_join (drop 2 line) (py_split CHR ''.'' ''ansible.eda''))
            (filter (\<lambda>line. startswith line ''# '')
               (splitlines ([CHR 0x0A] @ ''# /c'' @ [CHR 0x0A] @ ''Collection  Version''
                            @ [CHR 0x0A] @ ''ansible.eda 2.1.0'' @ [CHR 0x0A])))) =
     Some ''/c/ansible/eda''"
    by code_simp
  show ?thesis
    using find_collection_parses_output [OF conf out miss] conf out miss first
    by simp
qed

subsection \<open>Names without a dot\<close>

text \<open>
  C8. When the name splits on \<open>.\<close> into fewer than two segments, \<open>is_deprecated\<close>
  returns \<open>(False, None)\<close> in every environment and leaves the world as it was: no call
  of \<open>find_collection\<close> is recorded, the cache is untouched and no lister is run.
\<close>

theorem is_deprecated_short_name:
  assumes "length (py_split CHR ''.'' name) < 2"
  shows "is_deprecated e name obj_type w = (Inr (False, None), w)
         \<and> lookups (snd (is_deprecated e name obj_type w)) = lookups w"
  using assms by (simp add: is_deprecated_def)

theorem is_deprecated_short_name_witness:
  "length (py_split CHR ''.'' ''invalid_name'') < 2
   \<and> is_deprecated unconfigured_env ''invalid_name'' ''event_source'' initial_world =
       (Inr (False, None), initial_world)
   \<and> lookups (snd (is_deprecated unconfigured_env ''invalid_name'' ''event_source''
                     initial_world)) = lookups initial_world"
proof -
  have short: "length (py_split CHR ''.'' ''invalid_name'') < 2"
    by code_simp
  show ?thesis
    using is_deprecated_short_name [OF short] short by simp
qed

subsection \<open>The loop variables read by the \<open>raise\<close>\<close>

text \<open>
  C9. In an installed collection: with no sub-path to iterate, \<open>find_object\<close> fails with
  \<open>UnboundLocalError\<close> for \<open>object_type\<close>; with sub-paths and no extension, it fails with
  \<open>UnboundLocalError\<close> for \<open>location\<close>; with both non-empty and no candidate on disk, it
  raises \<open>FileNotFoundError\<close> with the last sub-path and the last location probed.
\<close>

theorem find_object_unbound_loop_variables:
  assumes "fst (find_collection e c w) = Inr (Some loc)"
  shows "(iterate ots = [] \<longrightarrow>
            fst (find_object e c n ots exts w) = Inl (UnboundLocalError ''object_type''))
         \<and> (iterate ots \<noteq> [] \<and> as_list exts = [] \<longrightarrow>
            fst (find_object e c n ots exts w) = Inl (UnboundLocalError ''location''))
         \<and> (iterate ots \<noteq> [] \<and> as_list exts \<noteq> []
            \<and> (\<forall>ot\<in>set (iterate ots). \<forall>x\<in>set (as_list exts).
                  \<not> path_exists e (os_path_join loc [ot, n] @ x)) \<longrightarrow>
            fst (find_object e c n ots exts w) =
              Inl (FileNotFoundError
                     (not_found_message (last (iterate ots)) n c
                        (os_path_join loc [last (iterate ots), n] @ last (as_list exts)))))"
proof -
  have none: "List.find (path_exists e) (candidates loc n (iterate ots) (as_list exts)) = None"
    if "\<forall>ot\<in>set (iterate ots). \<forall>x\<in>set (as_list exts).
          \<not> path_exists e (os_path_join loc [ot, n] @ x)"
    using that by (auto simp: find_None_iff candidates_def candidate_def)
  show ?thesis
    using none
    by (auto simp: find_object_installed [OF assms] raise_not_found_def candidates_def
          candidate_def)
qed

theorem find_object_unbound_loop_variables_witness:
  "fst (find_collection demo_env ''ansible.eda'' initial_world) = Inr (Some ''/c/ansible/eda'')
   \<and> iterate (StrList []) = []
   \<and> fst (find_object demo_env ''ansible.eda'' ''hello'' (StrList []) (Str ''.yml'')
            initial_world) = Inl (UnboundLocalError ''object_type'')
   \<and> iterate (StrList [''rulebooks'']) \<noteq> [] \<and> as_list (StrList []) = []
   \<and> fst (find_object demo_env ''ansible.eda'' ''hello'' (StrList [''rulebooks'']) (StrList [])
            initial_world) = Inl (UnboundLocalError ''location'')
   \<and> as_list (Str ''.yml'') \<noteq> []
   \<and> \<not> path_exists demo_env (os_path_join ''/c/ansible/eda'' [''rulebooks'', ''bye''] @ ''.yml'')
   \<and> fst (find_object demo_env ''ansible.eda'' ''bye'' (StrList [''rulebooks'']) (Str ''.yml'')
            initial_world) =
       Inl (FileNotFoundError
              ''Cannot find rulebooks bye in ansible.eda at /c/ansible/eda/rulebooks/bye.yml'')"
proof -
  have installed:
    "fst (find_collection demo_env ''ansible.eda'' initial_world) = Inr (Some ''/c/ansible/eda'')"
    by code_simp
  have no_subpath: "iterate (StrList []) = []"
    by (simp add: iterate_def)
  have subpath: "iterate (StrList [''rulebooks'']) \<noteq> []"
    by (simp add: iterate_def)
  have no_extension: "as_list (StrList []) = []"
    by (simp add: as_list_def)
  have extension: "as_list (Str ''.yml'') \<noteq> []"
    by (simp add: as_list_def)
  have no_file:
    "\<forall>ot\<in>set (iterate (StrList [''rulebooks''])). \<forall>x\<in>set (as_list (Str ''.yml'')).
       \<not> path_exists demo_env (os_path_join ''/c/ansible/eda'' [ot, ''bye''] @ x)"
    by code_simp
  have missing:
    "\<not> path_exists demo_env (os_path_join ''/c/ansible/eda'' [''rulebooks'', ''bye''] @ ''.yml'')"
    by code_simp
  have message:
    "not_found_message (last (iterate (StrList [''rulebooks'']))) ''bye'' ''ansible.eda''
       (os_path_join ''/c/ansible/eda'' [last (iterate (StrList [''rulebooks''])), ''bye'']
        @ last (as_list (Str ''.yml''))) =
     ''Cannot find rulebooks bye in ansible.eda at /c/ansible/eda/rulebooks/bye.yml''"
    by code_simp
  have first: "fst (find_object demo_env ''ansible.eda'' ''hello'' (StrList []) (Str ''.yml'')
                      initial_world) = Inl (UnboundLocalError ''object_type'')"
    by (rule find_object_unbound_loop_variables [OF installed, THEN conjunct1, THEN mp])
      (rule no_subpath)
  have second: "fst (find_object demo_env ''ansible.eda'' ''hello'' (StrList [''rulebooks''])
                       (StrList []) initial_world) = Inl (UnboundLocalError ''location'')"
    by (rule find_object_unbound_loop_variables
          [OF installed, THEN conjunct2, THEN conjunct1, THEN mp])
      (intro conjI subpath no_extension)
  have "fst (find_object demo_env ''ansible.eda'' ''bye'' (StrList [''rulebooks'']) (Str ''.yml'')
               initial_world) =
          Inl (FileNotFoundError
            (not_found_message (last (iterate (StrList [''rulebooks'']))) ''bye'' ''ansible.eda''
               (os_path_join ''/c/ansible/eda'' [last (iterate (StrList [''rulebooks''])), ''bye'']
                @ last (as_list (Str ''.yml'')))))"
    by (rule find_object_unbound_loop_variables
          [OF installed, THEN conjunct2, THEN conjunct2, THEN mp])
      (intro conjI subpath extension no_file)
  then have third:
    "fst (find_object demo_env ''ansible.eda'' ''bye'' (StrList [''rulebooks'']) (Str ''.yml'')
            initial_world) =
       Inl (FileNotFoundError
              ''Cannot find rulebooks bye in ansible.eda at /c/ansible/eda/rulebooks/bye.yml'')"
    by (simp only: message)
  show ?thesis
    by (intro conjI installed no_subpath first subpath no_extension second extension missing
          third)
qed

subsection \<open>Soundness of a returned location\<close>

text \<open>
  C10. A location that \<open>find_object\<close> returns is the directory the Locator reported for
  the collection, joined with one of the sub-paths iterated and the name, followed by one
  of the extensions, and it exists in the environment of the call. The same holds for
  \<open>find_playbook\<close>, \<open>find_source\<close> and \<open>find_source_filter\<close>, each with the sub-paths
  and extensions of its kind.
\<close>

theorem find_object_sound:
  "(fst (find_object e c n ots exts w) = Inr (Path p) \<longrightarrow>
      (\<exists>loc. fst (find_collection e c w) = Inr (Some loc)
         \<and> (\<exists>ot\<in>set (iterate ots). \<exists>x\<in>set (as_list exts). p = os_path_join loc [ot, n] @ x)
         \<and> path_exists e p))
   \<and> (fst (find_playbook e c n w) = Inr (Path p) \<longrightarrow>
      (\<exists>loc. fst (find_collection e c w) = Inr (Some loc)
         \<and> (\<exists>ot\<in>set EDA_PLAYBOOKS_PATHS. \<exists>x\<in>set EDA_YAML_EXTENSIONS.
               p = os_path_join loc [ot, n] @ x)
         \<and> path_exists e p))
   \<and> (fst (find_source e c n w) = Inr (Path p) \<longrightarrow>
      (\<exists>loc. fst (find_collection e c w) = Inr (Some loc)
         \<and> (\<exists>ot\<in>set EDA_SOURCE_PATHS. p = os_path_join loc [ot, n] @ ''.py'')
         \<and> path_exists e p))
   \<and> (fst (find_source_filter e c n w) = Inr (Path p) \<longrightarrow>
      (\<exists>loc. fst (find_collection e c w) = Inr (Some loc)
         \<and> (\<exists>ot\<in>set EDA_FILTER_PATHS. p = os_path_join loc [ot, n] @ ''.py'')
         \<and> path_exists e p))"
proof -
  have sound: "\<exists>loc. fst (find_collection e c w) = Inr (Some loc)
           \<and> (\<exists>ot\<in>set (iterate ots'). \<exists>x\<in>set (as_list exts').
                 p = os_path_join loc [ot, n] @ x)
           \<and> path_exists e p"
    if found: "fst (find_object e c n ots' exts' w) = Inr (Path p)" for ots' exts'
  proof -
    from find_object_path_installed [OF found]
    obtain loc where loc: "fst (find_collection e c w) = Inr (Some loc)" ..
    have "List.find (path_exists e) (candidates loc n (iterate ots') (as_list exts')) = Some p"
      using found by (simp add: find_object_installed [OF loc] split: option.splits)
    then have "p \<in> set (candidates loc n (iterate ots') (as_list exts'))" and "path_exists e p"
      by (auto simp: find_Some_iff)
    then show ?thesis
      using loc by (auto simp: candidates_def candidate_def)
  qed
  have playbook: "iterate (StrList EDA_PLAYBOOKS_PATHS) = EDA_PLAYBOOKS_PATHS"
    "as_list (StrList EDA_YAML_EXTENSIONS) = EDA_YAML_EXTENSIONS"
    by (simp_all add: iterate_def as_list_def)
  have plugin: "iterate (StrList EDA_SOURCE_PATHS) = EDA_SOURCE_PATHS"
    "iterate (StrList EDA_FILTER_PATHS) = EDA_FILTER_PATHS"
    "as_list (Str ''.py'') = [''.py'']"
    by (simp_all add: iterate_def as_list_def)
  show ?thesis
  proof (intro conjI impI)
    assume "fst (find_object e c n ots exts w) = Inr (Path p)"
    then show "\<exists>loc. fst (find_collection e c w) = Inr (Some loc)
         \<and> (\<exists>ot\<in>set (iterate ots). \<exists>x\<in>set (as_list exts). p = os_path_join loc [ot, n] @ x)
         \<and> path_exists e p"
      by (rule sound)
  next
    assume "fst (find_playbook e c n w) = Inr (Path p)"
    then have "fst (find_object e c n (StrList EDA_PLAYBOOKS_PATHS)
                      (StrList EDA_YAML_EXTENSIONS) w) = Inr (Path p)"
      by (simp add: find_playbook_def)
    from sound [OF this] show "\<exists>loc. fst (find_collection e c w) = Inr (Some loc)
         \<and> (\<exists>ot\<in>set EDA_PLAYBOOKS_PATHS. \<exists>x\<in>set EDA_YAML_EXTENSIONS.
               p = os_path_join loc [ot, n] @ x)
         \<and> path_exists e p"
      by (simp only: playbook)
  next
    assume "fst (find_source e c n w) = Inr (Path p)"
    then have "fst (find_object e c n (StrList EDA_SOURCE_PATHS) (Str ''.py'') w) = Inr (Path p)"
      by (simp add: find_source_def)
    from sound [OF this] show "\<exists>loc. fst (find_collection e c w) = Inr (Some loc)
         \<and> (\<exists>ot\<in>set EDA_SOURCE_PATHS. p = os_path_join loc [ot, n] @ ''.py'')
         \<and> path_exists e p"
      by (simp add: plugin)
  next
    assume "fst (find_source_filter e c n w) = Inr (Path p)"
    then have "fst (find_object e c n (StrList EDA_FILTER_PATHS) (Str ''.py'') w) =
                 Inr (Path p)"
      by (simp add: find_source_filter_def)
    from sound [OF this] show "\<exists>loc. fst (find_collection e c w) = Inr (Some loc)
         \<and> (\<exists>ot\<in>set EDA_FILTER_PATHS. p = os_path_join loc [ot, n] @ ''.py'')
         \<and> path_exists e p"
      by (simp add: plugin)
  qed
qed

theorem find_object_sound_witness:
  "fst (find_object demo_env ''ansible.eda'' ''hello'' (StrList [''rulebooks'']) (Str ''.yml'')
          initial_world) = Inr (Path ''/c/ansible/eda/rulebooks/hello.yml'')
   \<and> (\<exists>loc. fst (find_collection demo_env ''ansible.eda'' initial_world) = Inr (Some loc)
         \<and> (\<exists>ot\<in>set (iterate (StrList [''rulebooks''])). \<exists>x\<in>set (as_list (Str ''.yml'')).
               ''/c/ansible/eda/rulebooks/hello.yml'' = os_path_join loc [ot, ''hello''] @ x)
         \<and> path_exists demo_env ''/c/ansible/eda/rulebooks/hello.yml'')
   \<and> fst (find_playbook demo_env ''ansible.eda'' ''hello'' initial_world) =
       Inr (Path ''/c/ansible/eda/playbooks/hello.yml'')
   \<and> (\<exists>loc. fst (find_collection demo_env ''ansible.eda'' initial_world) = Inr (Some loc)
         \<and> (\<exists>ot\<in>set EDA_PLAYBOOKS_PATHS. \<exists>x\<in>set EDA_YAML_EXTENSIONS.
               ''/c/ansible/eda/playbooks/hello.yml'' = os_path_join loc [ot, ''hello''] @ x)
         \<and> path_exists demo_env ''/c/ansible/eda/playbooks/hello.yml'')
   \<and> fst (find_source demo_env ''ansible.eda'' ''range'' initial_world) =
       Inr (Path ''/c/ansible/eda/plugins/event_source/range.py'')
   \<and> (\<exists>loc. fst (find_collection demo_env ''ansible.eda'' initial_world) = Inr (Some loc)
         \<and> (\<exists>ot\<in>set EDA_SOURCE_PATHS.
               ''/c/ansible/eda/plugins/event_source/range.py'' =
                 os_path_join loc [ot, ''range''] @ ''.py'')
         \<and> path_exists demo_env ''/c/ansible/eda/plugins/event_source/range.py'')
   \<and> fst (find_source_filter demo_env ''ansible.eda'' ''json_filter'' initial_world) =
       Inr (Path ''/c/ansible/eda/extensions/eda/plugins/event_filters/json_filter.py'')
   \<and> (\<exists>loc. fst (find_collection demo_env ''ansible.eda'' initial_world) = Inr (Some loc)
         \<and> (\<exists>ot\<in>set EDA_FILTER_PATHS.
               ''/c/ansible/eda/extensions/eda/plugins/event_filters/json_filter.py'' =
                 os_path_join loc [ot, ''json_filter''] @ ''.py'')
         \<and> path_exists demo_env
               ''/c/ansible/eda/extensions/eda/plugins/event_filters/json_filter.py'')"
proof -
  have object: "fst (find_object demo_env ''ansible.eda'' ''hello'' (StrList [''rulebooks''])
          (Str ''.yml'') initial_world) = Inr (Path ''/c/ansible/eda/rulebooks/hello.yml'')"
    by code_simp
  have playbook: "fst (find_playbook demo_env ''ansible.eda'' ''hello'' initial_world) =
       Inr (Path ''/c/ansible/eda/playbooks/hello.yml'')"
    by code_simp
  have source: "fst (find_source demo_env ''ansible.eda'' ''range'' initial_world) =
       Inr (Path ''/c/ansible/eda/plugins/event_source/range.py'')"
    by code_simp
  have filter: "fst (find_source_filter demo_env ''ansible.eda'' ''json_filter'' initial_world) =
       Inr (Path ''/c/ansible/eda/extensions/eda/plugins/event_filters/json_filter.py'')"
    by code_simp
  note sound = find_object_sound [of demo_env "''ansible.eda''"]
  show ?thesis
    by (intro conjI object playbook source filter
          sound [THEN conjunct1, THEN mp, OF object]
          sound [THEN conjunct2, THEN conjunct1, THEN mp, OF playbook]
          sound [THEN conjunct2, THEN conjunct2, THEN conjunct1, THEN mp, OF source]
          sound [THEN conjunct2, THEN conjunct2, THEN conjunct2, THEN mp, OF filter])
qed

subsection \<open>What \<open>is_deprecated\<close> degrades and what it raises\<close>

lemma py_in_map: "py_in k (YMap m) = Inr (map_of m (YStr k) \<noteq> None)"
  by (simp add: py_in_def)

lemma py_getitem_map:
  "py_getitem (YMap m) k =
     (case map_of m (YStr k) of None \<Rightarrow> Inl (KeyError k) | Some x \<Rightarrow> Inr x)"
  by (simp add: py_getitem_def)

lemma py_get_map:
  "py_get (YMap m) k dflt = Inr (case map_of m (YStr k) of None \<Rightarrow> dflt | Some x \<Rightarrow> x)"
  by (simp add: py_get_def)

lemma and_then_Inr: "and_then (Inr x) f = f x"
  by (simp add: and_then_def)

lemma check_routing_miss:
  assumes "routing_miss m name obj_type"
  shows "check_routing e name obj_type (YMap m) = Inr None"
proof (cases "map_of m (YStr ''plugin_routing'')")
  case None
  then show ?thesis
    by (simp add: check_routing_def py_in_map and_then_Inr)
next
  case top: (Some v)
  with assms obtain routing where v: "v = YMap routing"
    by (cases v) (simp_all add: routing_miss_def)
  show ?thesis
  proof (cases "map_of routing (YStr (EDA_EXTENSIONS @ ''.plugins.'' @ obj_type))")
    case None
    with top v show ?thesis
      by (simp add: check_routing_def py_in_map py_getitem_map py_get_map and_then_Inr)
  next
    case kind: (Some u)
    with assms top v obtain objs where u: "u = YMap objs"
      by (cases u) (simp_all add: routing_miss_def)
    show ?thesis
    proof (cases "map_of objs (YStr name)")
      case None
      with top v kind u show ?thesis
        by (simp add: check_routing_def py_in_map py_getitem_map py_get_map and_then_Inr)
    next
      case entry: (Some t)
      with assms top v kind u obtain item where t: "t = YMap item"
        and "map_of item (YStr ''redirect'') = None"
        by (cases t) (simp_all add: routing_miss_def)
      with top v kind u entry show ?thesis
        by (simp add: check_routing_def py_in_map py_getitem_map py_get_map and_then_Inr)
    qed
  qed
qed

text \<open>
  C3, as the code has it. When the Locator returns, every miss gives \<open>(False, None)\<close>
  without an exception: an absent collection, a missing \<open>meta/runtime.yml\<close>, and, in a
  \<open>runtime.yml\<close> that decodes to a mapping with a mapping at every level that is present,
  a missing key at any level or a missing \<open>redirect\<close>. With the lister setting unset and
  the collection not in the cache, a name of two or more segments raises the
  configuration error of \<open>find_collection\<close>.
\<close>

theorem is_deprecated_degrades:
  "(fst (find_collection e (py_join ''.'' (butlast (py_split CHR ''.'' name))) w) = Inr r
      \<and> (r = None
          \<or> (\<exists>path. r = Some path
                \<and> \<not> path_exists e (os_path_join path [''meta'', ''runtime.yml'']))
          \<or> (\<exists>path raw m. r = Some path
                \<and> open_file e (os_path_join path [''meta'', ''runtime.yml'']) = Inr raw
                \<and> safe_load e raw = Inr (YMap m)
                \<and> routing_miss m name obj_type)) \<longrightarrow>
      fst (is_deprecated e name obj_type w) = Inr (False, None))
   \<and> (2 \<le> length (py_split CHR ''.'' name)
        \<and> ansible_galaxy_path e = None
        \<and> map_of (cache w) (py_join ''.'' (butlast (py_split CHR ''.'' name))) = None \<longrightarrow>
      fst (is_deprecated e name obj_type w) = Inl (PyException ''ansible-galaxy is not installed''))"
proof (intro conjI impI)
  let ?c = "py_join ''.'' (butlast (py_split CHR ''.'' name))"
  assume a: "fst (find_collection e ?c w) = Inr r
      \<and> (r = None
          \<or> (\<exists>path. r = Some path
                \<and> \<not> path_exists e (os_path_join path [''meta'', ''runtime.yml'']))
          \<or> (\<exists>path raw m. r = Some path
                \<and> open_file e (os_path_join path [''meta'', ''runtime.yml'']) = Inr raw
                \<and> safe_load e raw = Inr (YMap m)
                \<and> routing_miss m name obj_type))"
  then obtain w1 where fc: "find_collection e ?c w = (Inr r, w1)"
    by (cases "find_collection e ?c w") auto
  show "fst (is_deprecated e name obj_type w) = Inr (False, None)"
  proof (cases "length (py_split CHR ''.'' name) < 2")
    case True
    then show ?thesis by (simp add: is_deprecated_def)
  next
    case False
    from a consider
      (absent) "r = None"
      | (no_file) path where "r = Some path"
          "\<not> path_exists e (os_path_join path [''meta'', ''runtime.yml''])"
      | (miss) path raw m where "r = Some path"
          "open_file e (os_path_join path [''meta'', ''runtime.yml'']) = Inr raw"
          "safe_load e raw = Inr (YMap m)" "routing_miss m name obj_type"
      by blast
    then show ?thesis
    proof cases
      case absent
      with False fc show ?thesis by (simp add: is_deprecated_def)
    next
      case no_file
      with False fc show ?thesis by (simp add: is_deprecated_def)
    next
      case miss
      with False fc show ?thesis
        by (simp add: is_deprecated_def Let_def check_routing_miss)
    qed
  qed
next
  let ?c = "py_join ''.'' (butlast (py_split CHR ''.'' name))"
  assume "2 \<le> length (py_split CHR ''.'' name)
        \<and> ansible_galaxy_path e = None \<and> map_of (cache w) ?c = None"
  then show "fst (is_deprecated e name obj_type w) =
               Inl (PyException ''ansible-galaxy is not installed'')"
    by (simp add: is_deprecated_def find_collection_def find_collection_body_def)
qed

theorem is_deprecated_degrades_witness:
  "fst (find_collection demo_env (py_join ''.'' (butlast (py_split CHR ''.'' ''no.such.plugin'')))
          initial_world) = Inr None
   \<and> fst (is_deprecated demo_env ''no.such.plugin'' ''event_source'' initial_world) =
       Inr (False, None)
   \<and> fst (find_collection demo_env
            (py_join ''.'' (butlast (py_split CHR ''.'' ''ansible.eda.json_filter'')))
            initial_world) = Inr (Some ''/c/ansible/eda'')
   \<and> open_file demo_env (os_path_join ''/c/ansible/eda'' [''meta'', ''runtime.yml'']) =
       Inr ''plugin_routing: ...''
   \<and> safe_load demo_env ''plugin_routing: ...'' = Inr (YMap demo_metadata)
   \<and> routing_miss demo_metadata ''ansible.eda.json_filter'' ''event_source''
   \<and> fst (is_deprecated demo_env ''ansible.eda.json_filter'' ''event_source'' initial_world) =
       Inr (False, None)
   \<and> 2 \<le> length (py_split CHR ''.'' ''ansible.eda.range'')
   \<and> ansible_galaxy_path unconfigured_env = None
   \<and> map_of (cache initial_world)
        (py_join ''.'' (butlast (py_split CHR ''.'' ''ansible.eda.range''))) = None
   \<and> fst (is_deprecated unconfigured_env ''ansible.eda.range'' ''event_source'' initial_world) =
       Inl (PyException ''ansible-galaxy is not installed'')"
proof -
  have absent:
    "fst (find_collection demo_env (py_join ''.'' (butlast (py_split CHR ''.'' ''no.such.plugin'')))
          initial_world) = Inr None"
    by code_simp
  have installed:
    "fst (find_collection demo_env
            (py_join ''.'' (butlast (py_split CHR ''.'' ''ansible.eda.json_filter'')))
            initial_world) = Inr (Some ''/c/ansible/eda'')"
    by code_simp
  have readable: "open_file demo_env (os_path_join ''/c/ansible/eda'' [''meta'', ''runtime.yml'']) =
       Inr ''plugin_routing: ...''"
    by code_simp
  have data: "safe_load demo_env ''plugin_routing: ...'' = Inr (YMap demo_metadata)"
    by (simp add: demo_env_def)
  have miss: "routing_miss demo_metadata ''ansible.eda.json_filter'' ''event_source''"
    by code_simp
  have long: "2 \<le> length (py_split CHR ''.'' ''ansible.eda.range'')"
    by code_simp
  have unset: "ansible_galaxy_path unconfigured_env = None"
    by code_simp
  have fresh: "map_of (cache initial_world)
        (py_join ''.'' (butlast (py_split CHR ''.'' ''ansible.eda.range''))) = None"
    by code_simp
  have first: "fst (is_deprecated demo_env ''no.such.plugin'' ''event_source'' initial_world) =
       Inr (False, None)"
    using is_deprecated_degrades [of demo_env "''no.such.plugin''" initial_world None
        "''event_source''"] absent
    by simp
  have premise:
    "\<exists>path raw m. Some ''/c/ansible/eda'' = Some path
        \<and> open_file demo_env (os_path_join path [''meta'', ''runtime.yml'']) = Inr raw
        \<and> safe_load demo_env raw = Inr (YMap m)
        \<and> routing_miss m ''ansible.eda.json_filter'' ''event_source''"
    using readable data miss by (intro exI conjI) (rule refl)
  have second:
    "fst (is_deprecated demo_env ''ansible.eda.json_filter'' ''event_source'' initial_world) =
       Inr (False, None)"
    by (rule is_deprecated_degrades [of demo_env "''ansible.eda.json_filter''" initial_world
          "Some ''/c/ansible/eda''" "''event_source''", THEN conjunct1, THEN mp])
      (intro conjI disjI2 installed premise)
  have third:
    "fst (is_deprecated unconfigured_env ''ansible.eda.range'' ''event_source'' initial_world) =
       Inl (PyException ''ansible-galaxy is not installed'')"
    using is_deprecated_degrades [of unconfigured_env "''ansible.eda.range''" initial_world _
        "''event_source''"] long unset fresh
    by simp
  show ?thesis
    by (intro conjI absent first installed readable data miss second long unset fresh third)
qed

text \<open>
  C3 as the specification states it fails: with the lister setting unset the
  configuration error leaves \<open>is_deprecated\<close>, and so does the \<open>TypeError\<close> of
  \<open>"plugin_routing" in None\<close> when \<open>meta/runtime.yml\<close> is empty.
\<close>

theorem is_deprecated_raises_counterexample:
  "fst (is_deprecated unconfigured_env ''ansible.eda.range'' ''event_source'' initial_world) =
     Inl (PyException ''ansible-galaxy is not installed'')
   \<and> fst (is_deprecated empty_metadata_env ''ansible.eda.range'' ''event_source''
            initial_world) = Inl TypeError"
  by code_simp

subsection \<open>The bound of the cache\<close>

lemma find_collection_cache_cases:
  "cache (snd (find_collection e m w)) =
     (case map_of (cache w) m of
        Some r' \<Rightarrow> (m, r') # filter (\<lambda>kv. fst kv \<noteq> m) (cache w)
      | None \<Rightarrow>
          (case fst (find_collection e m w) of
             Inl err \<Rightarrow> cache w
           | Inr r' \<Rightarrow> take maxsize ((m, r') # cache w)))"
  by (auto simp: find_collection_def Let_def dest!: find_collection_body_cache
        split: option.splits prod.splits sum.splits)

lemma find_collection_miss_spawns:
  assumes "map_of (cache w) n = None" and "ansible_galaxy_path e = Some g"
  shows "spawned (snd (find_collection e n w)) = (g, n) # spawned w"
  using assms
  by (simp add: find_collection_def find_collection_body_def Let_def
        split: lister_outcome.splits)

lemma map_of_filter_other:
  "n \<noteq> m \<Longrightarrow> map_of (filter (\<lambda>kv. fst kv \<noteq> m) xs) n = map_of xs n"
  by (induction xs) auto

lemma takeWhile_filter_other:
  "n \<noteq> m \<Longrightarrow> n \<in> fst ` set xs \<Longrightarrow>
   takeWhile (\<lambda>kv. fst kv \<noteq> n) (filter (\<lambda>kv. fst kv \<noteq> m) xs) =
   filter (\<lambda>kv. fst kv \<noteq> m) (takeWhile (\<lambda>kv. fst kv \<noteq> n) xs)"
  by (induction xs) auto

lemma takeWhile_take_front:
  "length (takeWhile P xs) < k \<Longrightarrow> takeWhile P (take k xs) = takeWhile P xs"
proof (induction xs arbitrary: k)
  case Nil
  then show ?case by simp
next
  case (Cons x xs)
  then show ?case by (cases k) (auto split: if_splits)
qed

lemma map_of_take_front:
  "length (takeWhile (\<lambda>kv. fst kv \<noteq> n) xs) < k \<Longrightarrow> map_of (take k xs) n = map_of xs n"
proof (induction xs arbitrary: k)
  case Nil
  then show ?case by simp
next
  case (Cons x xs)
  then show ?case by (cases k) (auto split: if_splits)
qed

lemma distinct_keys_filter:
  "distinct (map fst xs) \<Longrightarrow> distinct (m # map fst (filter (\<lambda>kv. fst kv \<noteq> m) xs))"
  by (auto simp: distinct_map_filter)

lemma find_collection_distinct:
  assumes "distinct (map fst (cache w))"
  shows "distinct (map fst (cache (snd (find_collection e m w))))"
proof (cases "map_of (cache w) m")
  case None
  then have "m \<notin> fst ` set (cache w)"
    by (simp add: map_of_eq_None_iff)
  then have "distinct (take maxsize (map fst ((m, x) # cache w)))" for x
    using assms by (intro distinct_take) simp
  then have "distinct (map fst (take maxsize ((m, x) # cache w)))" for x
    by (simp only: take_map)
  with None assms show ?thesis
    by (simp add: find_collection_cache_cases split: sum.splits)
next
  case (Some r')
  with assms show ?thesis
    using distinct_keys_filter [of "cache w" m]
    by (simp add: find_collection_cache_cases)
qed

lemma still_cached_step:
  assumes inv: "still_cached n r T w"
    and mT: "m \<in> T" and fin: "finite T" and bound: "card (T - {n}) < maxsize"
  shows "still_cached n r T (snd (find_collection e m w))"
proof -
  let ?P = "\<lambda>kv. fst kv \<noteq> n"
  let ?front = "takeWhile ?P (cache w)"
  let ?w' = "snd (find_collection e m w)"
  from inv have d: "distinct (map fst (cache w))"
    and look: "map_of (cache w) n = Some r"
    and sub: "fst ` set ?front \<subseteq> T"
    by (simp_all add: still_cached_def)
  have d': "distinct (map fst (cache ?w'))"
    using d by (rule find_collection_distinct)
  have nin: "n \<in> fst ` set (cache w)"
    using look map_of_eq_None_iff [of "cache w" n] by auto
  show ?thesis
  proof (cases "map_of (cache w) m")
    case (Some r')
    then have c: "cache ?w' = (m, r') # filter (\<lambda>kv. fst kv \<noteq> m) (cache w)"
      by (simp add: find_collection_cache_cases)
    show ?thesis
    proof (cases "m = n")
      case True
      with Some look c d' show ?thesis
        by (simp add: still_cached_def)
    next
      case False
      then have nm: "n \<noteq> m" by simp
      have "map_of (cache ?w') n = Some r"
        using look nm by (simp add: c map_of_filter_other)
      moreover have "takeWhile ?P (cache ?w') = (m, r') # filter (\<lambda>kv. fst kv \<noteq> m) ?front"
        using False by (simp add: c takeWhile_filter_other [OF nm nin])
      then have "fst ` set (takeWhile ?P (cache ?w')) \<subseteq> T"
        using sub mT by auto
      ultimately show ?thesis
        using d' by (simp add: still_cached_def)
    qed
  next
    case None
    with look have mn: "m \<noteq> n" by auto
    from None have mnot: "m \<notin> fst ` set (cache w)"
      by (simp add: map_of_eq_None_iff)
    show ?thesis
    proof (cases "fst (find_collection e m w)")
      case (Inl err)
      with None have "cache ?w' = cache w"
        by (simp add: find_collection_cache_cases)
      with inv show ?thesis
        by (simp add: still_cached_def)
    next
      case (Inr r')
      with None have c: "cache ?w' = take maxsize ((m, r') # cache w)"
        by (simp add: find_collection_cache_cases)
      have "?front = take (length ?front) (cache w)"
        by (rule takeWhile_eq_take)
      then have "map fst ?front = take (length ?front) (map fst (cache w))"
        by (metis take_map)
      then have "distinct (map fst ?front)"
        using d by (metis distinct_take)
      then have card_front: "card (fst ` set ?front) = length ?front"
        using distinct_card [of "map fst ?front"] by simp
      have "m \<notin> fst ` set ?front"
        using mnot by (auto dest: set_takeWhileD)
      then have "card (insert m (fst ` set ?front)) = Suc (length ?front)"
        using card_front by simp
      moreover have "insert m (fst ` set ?front) \<subseteq> T - {n}"
        using sub mT mn by (auto dest: set_takeWhileD)
      then have "card (insert m (fst ` set ?front)) \<le> card (T - {n})"
        using fin by (intro card_mono) auto
      ultimately have short: "Suc (length ?front) < maxsize"
        using bound by simp
      have tw: "takeWhile ?P ((m, r') # cache w) = (m, r') # ?front"
        using mn by simp
      then have len: "length (takeWhile ?P ((m, r') # cache w)) < maxsize"
        using short by simp
      have "takeWhile ?P (cache ?w') = (m, r') # ?front"
        unfolding c using takeWhile_take_front [OF len] tw by simp
      then have "fst ` set (takeWhile ?P (cache ?w')) \<subseteq> T"
        using sub mT by auto
      moreover have "map_of (cache ?w') n = Some r"
        unfolding c using map_of_take_front [OF len] look mn by simp
      ultimately show ?thesis
        using d' by (simp add: still_cached_def)
    qed
  qed
qed

lemma still_cached_locate_all:
  assumes "still_cached n r T w"
    and "snd ` set calls \<subseteq> T" and "finite T" and "card (T - {n}) < maxsize"
  shows "still_cached n r T (locate_all calls w)"
  using assms
proof (induction calls arbitrary: w)
  case Nil
  then show ?case by simp
next
  case (Cons call calls)
  obtain e m where call: "call = (e, m)" by (cases call)
  with Cons.prems have "still_cached n r T (snd (find_collection e m w))"
    by (intro still_cached_step) auto
  with Cons call show ?case by simp
qed

lemma still_cached_first:
  assumes "distinct (map fst (cache w))" and "fst (find_collection e n w) = Inr r"
  shows "still_cached n r T (snd (find_collection e n w))"
proof -
  have "\<exists>rest. cache (snd (find_collection e n w)) = (n, r) # rest"
    using assms(2)
    by (auto simp: find_collection_def Let_def maxsize_def
          split: option.splits prod.splits sum.splits)
  then have "takeWhile (\<lambda>kv. fst kv \<noteq> n) (cache (snd (find_collection e n w))) = []"
    by auto
  with find_collection_distinct [OF assms(1)] find_collection_cached [OF assms(2)]
  show ?thesis
    by (simp add: still_cached_def)
qed

text \<open>
  C4, as the code has it. The cache is the store of \<open>lru_cache\<close> at its default size of
  128 entries, and it drops the entry that was used least recently when a new one does
  not fit. So a name that was located once is answered from the cache, with the result
  of the first call, in whatever environment, and without a run of the lister, when
  fewer than 128 distinct other names were located in between.
\<close>

theorem find_collection_cached_within_bound:
  assumes "distinct (map fst (cache w))"
    and "fst (find_collection e name w) = Inr r"
    and "card (snd ` set calls - {name}) < 128"
  shows "fst (find_collection e' name (locate_all calls (snd (find_collection e name w)))) = Inr r
         \<and> spawned (snd (find_collection e' name
                      (locate_all calls (snd (find_collection e name w))))) =
             spawned (locate_all calls (snd (find_collection e name w)))"
proof -
  let ?w2 = "locate_all calls (snd (find_collection e name w))"
  have "still_cached name r (snd ` set calls) (snd (find_collection e name w))"
    using assms(1,2) by (rule still_cached_first)
  then have "still_cached name r (snd ` set calls) ?w2"
    using assms(3) by (intro still_cached_locate_all) (simp_all add: maxsize_def)
  then have "map_of (cache ?w2) name = Some r"
    by (simp add: still_cached_def)
  then show ?thesis
    by (simp add: find_collection_hit)
qed

theorem find_collection_cached_within_bound_witness:
  "distinct (map fst (cache initial_world))
   \<and> fst (find_collection open_env ''a.b'' initial_world) = Inr (Some ''/c/a/b'')
   \<and> card (snd ` set [(open_env, ''x''), (unconfigured_env, ''a.b''), (open_env, ''xx'')]
             - {''a.b''}) < 128
   \<and> fst (find_collection unconfigured_env ''a.b''
            (locate_all [(open_env, ''x''), (unconfigured_env, ''a.b''), (open_env, ''xx'')]
               (snd (find_collection open_env ''a.b'' initial_world)))) = Inr (Some ''/c/a/b'')"
proof -
  have d: "distinct (map fst (cache initial_world))"
    by (simp add: initial_world_def)
  have located: "fst (find_collection open_env ''a.b'' initial_world) = Inr (Some ''/c/a/b'')"
    by code_simp
  have "snd ` set [(open_env, ''x''), (unconfigured_env, ''a.b''), (open_env, ''xx'')]
          - {''a.b''} = {''x'', ''xx''}"
    by auto
  then have few:
    "card (snd ` set [(open_env, ''x''), (unconfigured_env, ''a.b''), (open_env, ''xx'')]
             - {''a.b''}) < 128"
    by simp
  show ?thesis
    using find_collection_cached_within_bound [OF d located few, of unconfigured_env]
      d located few
    by simp
qed

lemma open_env_miss:
  assumes "map_of (cache w) m = None"
  shows "\<exists>r. cache (snd (find_collection open_env m w)) = take maxsize ((m, r) # cache w)"
proof -
  have conf: "ansible_galaxy_path open_env = Some ''g''"
    by (simp add: open_env_def)
  have out: "galaxy_list open_env ''g'' m = Output ''# /c''"
    by (simp add: open_env_def)
  have "cache (snd (find_collection open_env m w)) =
          take maxsize ((m, scan_lines open_env (py_split CHR ''.'' m) (splitlines ''# /c''))
                        # cache w)"
    using assms by (simp add: find_collection_def find_collection_body_def Let_def conf out)
  then show ?thesis by blast
qed

lemma take_append_take: "take k (xs @ take k ys) = take k (xs @ ys)"
  by (simp add: min_def)

lemma locate_fresh_keys:
  assumes "distinct ms" and "set ms \<inter> fst ` set (cache w) = {}"
    and "length (cache w) \<le> maxsize"
  shows "map fst (cache (locate_all (map (Pair open_env) ms) w)) =
           take maxsize (rev ms @ map fst (cache w))"
  using assms
proof (induction ms arbitrary: w)
  case Nil
  then show ?case by simp
next
  case (Cons m ms)
  let ?w1 = "snd (find_collection open_env m w)"
  from Cons.prems have "m \<notin> fst ` set (cache w)" by auto
  then have "map_of (cache w) m = None"
    by (simp add: map_of_eq_None_iff)
  then obtain r where c: "cache ?w1 = take maxsize ((m, r) # cache w)"
    using open_env_miss by blast
  have "map fst (take maxsize ((m, r) # cache w)) = take maxsize (map fst ((m, r) # cache w))"
    by (simp only: take_map)
  with c have keys: "map fst (cache ?w1) = take maxsize (m # map fst (cache w))"
    by simp
  have "set (map fst (cache ?w1)) \<subseteq> insert m (fst ` set (cache w))"
    unfolding keys using set_take_subset [of maxsize "m # map fst (cache w)"] by auto
  with Cons.prems have disjoint: "set ms \<inter> fst ` set (cache ?w1) = {}"
    by auto
  have "length (cache ?w1) \<le> maxsize"
    by (simp add: c)
  with Cons.IH [of ?w1] Cons.prems disjoint
  have "map fst (cache (locate_all (map (Pair open_env) ms) ?w1)) =
          take maxsize (rev ms @ map fst (cache ?w1))"
    by simp
  then show ?case
    by (simp add: keys take_append_take)
qed

text \<open>
  C4 as the specification states it fails: \<open>a.b\<close> is located, then 128 other names are,
  and the entry of \<open>a.b\<close> is gone from the cache: locating it again runs the lister again.
\<close>

theorem cache_eviction_counterexample:
  "fst (find_collection open_env ''a.b'' initial_world) = Inr (Some ''/c/a/b'')
   \<and> map_of (cache (world_after 128)) ''a.b'' = None
   \<and> spawned (snd (find_collection open_env ''a.b'' (world_after 128))) =
       (''g'', ''a.b'') # spawned (world_after 128)"
proof -
  let ?w1 = "snd (find_collection open_env ''a.b'' initial_world)"
  have located: "fst (find_collection open_env ''a.b'' initial_world) = Inr (Some ''/c/a/b'')"
    by code_simp
  have c1: "cache ?w1 = [(''a.b'', Some ''/c/a/b'')]"
    by code_simp
  have "inj_on (\<lambda>i. replicate i CHR ''x'') (set [1..<Suc 128])"
    by (auto simp: inj_on_def dest: arg_cong [where f = length])
  then have dn: "distinct (distinct_names 128)"
    by (simp add: distinct_names_def distinct_map)
  have fresh: "''a.b'' \<notin> set (distinct_names 128)"
    by (auto simp: distinct_names_def Cons_replicate_eq)
  have len: "length (distinct_names 128) = 128"
    by (simp add: distinct_names_def)
  have "map fst (cache (world_after 128)) =
          take maxsize (rev (distinct_names 128) @ map fst (cache ?w1))"
    unfolding world_after_def using dn fresh
    by (intro locate_fresh_keys) (simp_all add: c1 maxsize_def)
  then have "map fst (cache (world_after 128)) = rev (distinct_names 128)"
    using len by (simp add: maxsize_def)
  then have "fst ` set (cache (world_after 128)) = set (distinct_names 128)"
    by (metis set_map set_rev)
  with fresh have evicted: "map_of (cache (world_after 128)) ''a.b'' = None"
    by (simp add: map_of_eq_None_iff)
  have conf: "ansible_galaxy_path open_env = Some ''g''"
    by (simp add: open_env_def)
  show ?thesis
    using located evicted find_collection_miss_spawns [OF evicted conf] by simp
qed

end
